theory Spec2Isabelle
  imports Complex_Main "HOL-Library.Multiset" "HOL-Library.AList"
begin

section \<open>Timestamps\<close>

text \<open>
  Priorities, delays and action times are JavaScript numbers. They are modelled as exact reals
  extended by \<open>Infinity\<close>, which \<open>Entity.getActionDelay\<close> returns for a speed of 0; NaN and
  \<open>-Infinity\<close> are outside the model. Comparison and addition are those of JavaScript on these
  values. All other numbers of the program are modelled as exact reals.
\<close>

datatype time = Finite real | Infinity

instantiation time :: "{linorder, plus}"
begin

fun less_eq_time :: "time \<Rightarrow> time \<Rightarrow> bool" where
  "less_eq_time (Finite a) (Finite b) = (a \<le> b)"
| "less_eq_time Infinity (Finite b) = False"
| "less_eq_time x Infinity = True"

fun less_time :: "time \<Rightarrow> time \<Rightarrow> bool" where
  "less_time (Finite a) (Finite b) = (a < b)"
| "less_time (Finite a) Infinity = True"
| "less_time Infinity y = False"

fun plus_time :: "time \<Rightarrow> time \<Rightarrow> time" where
  "plus_time (Finite a) (Finite b) = Finite (a + b)"
| "plus_time Infinity y = Infinity"
| "plus_time (Finite a) Infinity = Infinity"

instance
proof
  fix x y z :: time
  show "(x < y) = (x \<le> y \<and> \<not> y \<le> x)" by (cases x; cases y) auto
  show "x \<le> x" by (cases x) auto
  show "x \<le> y \<Longrightarrow> y \<le> z \<Longrightarrow> x \<le> z" by (cases x; cases y; cases z) auto
  show "x \<le> y \<Longrightarrow> y \<le> x \<Longrightarrow> x = y" by (cases x; cases y) auto
  show "x \<le> y \<or> y \<le> x" by (cases x; cases y) auto
qed

end

section \<open>Priority queue (priorityQueue.js)\<close>

text \<open>
  The queue is the array \<open>this.heap\<close> of nodes \<open>{item, priority}\<close>. \<open>bubbleUp\<close> and \<open>bubbleDown\<close>
  are private and are only ever called with an index inside the array (\<open>push\<close> passes
  \<open>length - 1\<close>, \<open>pop\<close> passes \<open>0\<close> on a non-empty array).
\<close>

record 'a node =
  item :: 'a
  priority :: time

definition swap :: "'x list \<Rightarrow> nat \<Rightarrow> nat \<Rightarrow> 'x list" where
  "swap h i j = h[i := h ! j, j := h ! i]"

function bubbleUp :: "'a node list \<Rightarrow> nat \<Rightarrow> 'a node list" where
  "bubbleUp h index =
     (if index = 0 then h
      else let parentIndex = (index - 1) div 2
           in if priority (h ! index) < priority (h ! parentIndex)
              then bubbleUp (swap h index parentIndex) parentIndex
              else h)"
  by pat_completeness auto
termination
  by (relation "measure (\<lambda>(h, index). index)") auto

function bubbleDown :: "'a node list \<Rightarrow> nat \<Rightarrow> 'a node list" where
  "bubbleDown h index =
     (let leftChild = 2 * index + 1;
          rightChild = 2 * index + 2;
          smallest = index;
          smallest = (if leftChild < length h \<and> priority (h ! leftChild) < priority (h ! smallest)
                      then leftChild else smallest);
          smallest = (if rightChild < length h \<and> priority (h ! rightChild) < priority (h ! smallest)
                      then rightChild else smallest)
      in if smallest \<noteq> index then bubbleDown (swap h index smallest) smallest else h)"
  by pat_completeness auto
termination
  by (relation "measure (\<lambda>(h, index). length h - index)") (auto simp: swap_def split: if_splits)

declare bubbleUp.simps [simp del] bubbleDown.simps [simp del]

definition push :: "'a node list \<Rightarrow> 'a \<Rightarrow> time \<Rightarrow> 'a node list" where
  "push h it p =
     (let node = \<lparr>item = it, priority = p\<rparr>;
          h1 = h @ [node]
      in bubbleUp h1 (length h1 - 1))"

definition pop :: "'a node list \<Rightarrow> 'a option \<times> 'a node list" where
  "pop h =
     (if length h = 0 then (None, h)
      else if length h = 1 then (Some (item (last h)), butlast h)
      else let min = item (h ! 0);
               h1 = (butlast h)[0 := last h]
           in (Some min, bubbleDown h1 0))"

definition popNode :: "'a node list \<Rightarrow> 'a node option \<times> 'a node list" where
  "popNode h =
     (if length h = 0 then (None, h)
      else if length h = 1 then (Some (last h), butlast h)
      else let min = h ! 0;
               h1 = (butlast h)[0 := last h]
           in (Some min, bubbleDown h1 0))"

definition heap_ok :: "'a node list \<Rightarrow> bool" where
  "heap_ok h = (\<forall>i<length h. 0 < i \<longrightarrow> priority (h ! ((i - 1) div 2)) \<le> priority (h ! i))"

text \<open>
  \<open>popNode\<close> is \<open>pop\<close> returning the whole node instead of \<open>node.item\<close>; it is used to speak
  about the timestamp under which a returned entry was scheduled.
\<close>

section \<open>Entities and components (Entity class)\<close>

text \<open>
  An entity carries a map from component names to component objects. Each component the
  modelled code reads is one optional field of \<open>comps\<close>; \<open>None\<close> is an absent component.
  Numeric fields that the code reads through \<open>||\<close> or a truthiness test (\<open>weapon.damage || 0\<close>,
  \<open>weapon.speed || 1.0\<close>, \<open>stats.agility\<close>) are plain numbers, with 0 for an absent field,
  and a string field read through \<open>||\<close> holds the empty string when absent: JavaScript
  treats 0, the empty string and \<open>undefined\<close> alike there.
\<close>

record stats_c =
  strength :: real
  dexterity :: real
  intelligence :: real
  constitution :: real
  agility :: real

record gear =
  gtype :: string
  gdamage :: real
  gspeed :: real
  gdefense :: real

record equipment_c =
  primary :: "gear option"
  weapon :: "gear option"
  secondary :: "gear option"
  armor :: "gear option"
  helm :: "gear option"
  shoulder :: "gear option"
  chest :: "gear option"
  arms :: "gear option"
  legs :: "gear option"
  wrist1 :: "gear option"
  wrist2 :: "gear option"
  hands :: "gear option"
  feet :: "gear option"

record skill =
  level :: int
  experience :: real
  maxExperience :: real

record level_c =
  lvalue :: int
  lexperience :: real
  experienceToNext :: real

record health_c =
  current :: real
  hmax :: real

record mana_c =
  mcurrent :: real
  mmax :: real

record notice_c =
  hasNoticed :: bool
  noticeTimer :: int
  noticeDelay :: int
  alertRange :: real

record ai_c =
  aitype :: string
  airange :: real

record loot_c =
  lgold :: "(real \<times> real) option"
  litems :: "string list"

record corpse_c =
  cmonsterType :: string
  looted :: bool

record comps =
  health :: "health_c option"
  stats :: "stats_c option"
  equipment :: "equipment_c option"
  skills :: "(string \<rightharpoonup> skill) option"
  level_comp :: "level_c option"
  lastAttack :: "real option"
  notice :: "notice_c option"
  ai :: "ai_c option"
  visibility :: "bool option"
  loot :: "loot_c option"
  corpse :: "corpse_c option"
  gold :: "real option"
  hitEffect :: "(nat \<times> nat) option"
  appearance :: "(string \<times> string) option"
  speed :: "real option"
  mana :: "mana_c option"
  animation :: "(nat \<times> nat) option"

record entity =
  eid :: string
  etype :: string
  xpos :: int
  ypos :: int
  nextAction :: time
  active :: bool
  monsterType :: string
  components :: comps

definition emptyComps :: comps where
  "emptyComps = \<lparr>health = None, stats = None, equipment = None, skills = None,
     level_comp = None, lastAttack = None, notice = None, ai = None, visibility = None,
     loot = None, corpse = None, gold = None, hitEffect = None, appearance = None,
     speed = None, mana = None, animation = None\<rparr>"

definition newEntity :: "string \<Rightarrow> string \<Rightarrow> int \<Rightarrow> int \<Rightarrow> entity" where
  "newEntity i ty px py =
     \<lparr>eid = i, etype = ty, xpos = px, ypos = py, nextAction = Finite 0, active = True,
      monsterType = [], components = emptyComps\<rparr>"

definition getNextActionTime :: "entity \<Rightarrow> time" where
  "getNextActionTime e = nextAction e"

definition setNextActionTime :: "entity \<Rightarrow> time \<Rightarrow> entity" where
  "setNextActionTime e t = e\<lparr>nextAction := t\<rparr>"

text \<open>
  \<open>getActionDelay\<close>: \<open>Math.max(100, 1000 / speed.value)\<close>. For a speed of 0 the quotient, and so
  the maximum, is \<open>Infinity\<close>.
\<close>

definition getActionDelay :: "entity \<Rightarrow> time" where
  "getActionDelay e =
     (case speed (components e) of
        None \<Rightarrow> Finite 1000
      | Some v \<Rightarrow> if v = 0 then Infinity else Finite (max 100 (1000 / v)))"

definition deactivate :: "entity \<Rightarrow> entity" where
  "deactivate e = e\<lparr>active := False\<rparr>"

definition activate :: "entity \<Rightarrow> entity" where
  "activate e = e\<lparr>active := True\<rparr>"

section \<open>Program state: object store, World, injected systems\<close>

text \<open>
  Entities are mutable objects shared by reference between the World registry, the
  scheduler's heap and the callers. \<open>store\<close> maps a reference to the object it denotes and
  \<open>nextRef\<close> is the next unused reference (\<open>new Entity(...)\<close> takes it). \<open>entities\<close> is the
  World's \<open>Map\<close> from entity id to entity, an association list in insertion order;
  \<open>skillsSystem\<close> says whether \<open>window.game.skillsSystem\<close> is present and
  \<open>characterProgress\<close> whether the combat system's \<open>characterProgress\<close> was injected.
  Logging, audio and rendering callbacks are not part of the state.
\<close>

type_synonym ref = nat

record game =
  store :: "ref \<Rightarrow> entity"
  nextRef :: ref
  entities :: "(string \<times> ref) list"
  player :: "ref option"
  width :: int
  height :: int
  passable :: "int \<Rightarrow> int \<Rightarrow> bool"
  skillsSystem :: bool
  characterProgress :: bool

definition addEntity :: "game \<Rightarrow> ref \<Rightarrow> game" where
  "addEntity g r =
     (let e = store g r;
          g1 = g\<lparr>entities := AList.update (eid e) r (entities g)\<rparr>
      in if etype e = ''player'' then g1\<lparr>player := Some r\<rparr> else g1)"

definition removeEntity :: "game \<Rightarrow> string \<Rightarrow> bool \<times> game" where
  "removeEntity g entityId =
     (case map_of (entities g) entityId of
        Some r \<Rightarrow>
          let g1 = g\<lparr>store := (store g)(r := deactivate (store g r))\<rparr>;
              g2 = g1\<lparr>entities := AList.delete entityId (entities g1)\<rparr>;
              g3 = (if player g2 = Some r then g2\<lparr>player := None\<rparr> else g2)
          in (True, g3)
      | None \<Rightarrow> (False, g))"

text \<open>
  \<open>clearEntities\<close>: \<open>this.entities.clear(); this.player = null\<close>. No entity is deactivated;
  \<open>Game.generateLevel\<close> calls it on every change of level.
\<close>

definition clearEntities :: "game \<Rightarrow> game" where
  "clearEntities g = g\<lparr>entities := [], player := None\<rparr>"

section \<open>Scheduler\<close>

record scheduler =
  queue :: "ref node list"
  currentTime :: time

definition newScheduler :: scheduler where
  "newScheduler = \<lparr>queue = [], currentTime = Finite 0\<rparr>"

text \<open>\<open>schedule(entity, delay = null)\<close>; the entity argument may be \<open>null\<close>.\<close>

definition schedule :: "game \<Rightarrow> scheduler \<Rightarrow> ref option \<Rightarrow> time option \<Rightarrow> game \<times> scheduler" where
  "schedule g s entity delay =
     (case entity of
        None \<Rightarrow> (g, s)
      | Some r \<Rightarrow>
          if \<not> active (store g r) then (g, s)
          else let actionDelay = (case delay of Some d \<Rightarrow> d | None \<Rightarrow> getActionDelay (store g r));
                   nextActionTime = currentTime s + actionDelay
               in (g\<lparr>store := (store g)(r := setNextActionTime (store g r) nextActionTime)\<rparr>,
                   s\<lparr>queue := push (queue s) r nextActionTime\<rparr>))"

function getNextEntity :: "game \<Rightarrow> scheduler \<Rightarrow> ref option \<times> scheduler" where
  "getNextEntity g s =
     (if queue s = [] then (None, s)
      else case pop (queue s) of
             (None, q) \<Rightarrow> getNextEntity g (s\<lparr>queue := q\<rparr>)
           | (Some r, q) \<Rightarrow>
               if \<not> active (store g r) then getNextEntity g (s\<lparr>queue := q\<rparr>)
               else (Some r, s\<lparr>queue := q, currentTime := getNextActionTime (store g r)\<rparr>))"
  by pat_completeness auto
termination
proof -
  have len: "length (bubbleDown h i) = length h" for h :: "ref node list" and i
    by (induction h i rule: bubbleDown.induct) (subst bubbleDown.simps, simp add: Let_def swap_def)
  have shrink: "length (snd (pop h)) < length h" if "h \<noteq> []" for h :: "ref node list"
  proof (cases "length h = 1")
    case True
    then show ?thesis by (simp add: pop_def)
  next
    case False
    moreover have "length h \<noteq> 0" using that by simp
    ultimately show ?thesis by (simp add: pop_def Let_def len)
  qed
  show ?thesis
  proof (relation "measure (\<lambda>(g, s). length (queue s))", goal_cases)
    case 1
    show ?case by simp
  next
    case (2 g s x q)
    have "q = snd (pop (queue s))" using 2(2)[symmetric] by simp
    then show ?case using shrink[OF 2(1)] by simp
  next
    case (3 g s x q r)
    have "q = snd (pop (queue s))" using 3(2)[symmetric] by simp
    then show ?case using shrink[OF 3(1)] by simp
  qed
qed

declare getNextEntity.simps [simp del]

text \<open>
  \<open>getNextNode\<close> is \<open>getNextEntity\<close> on \<open>popNode\<close>: the same loop, returning the heap node
  of the dispatched entity.
\<close>

function getNextNode :: "game \<Rightarrow> scheduler \<Rightarrow> ref node option \<times> scheduler" where
  "getNextNode g s =
     (if queue s = [] then (None, s)
      else case popNode (queue s) of
             (None, q) \<Rightarrow> getNextNode g (s\<lparr>queue := q\<rparr>)
           | (Some n, q) \<Rightarrow>
               if \<not> active (store g (item n)) then getNextNode g (s\<lparr>queue := q\<rparr>)
               else (Some n, s\<lparr>queue := q, currentTime := getNextActionTime (store g (item n))\<rparr>))"
  by pat_completeness auto
termination
proof -
  have len: "length (bubbleDown h i) = length h" for h :: "ref node list" and i
    by (induction h i rule: bubbleDown.induct) (subst bubbleDown.simps, simp add: Let_def swap_def)
  have shrink: "length (snd (popNode h)) < length h" if "h \<noteq> []" for h :: "ref node list"
  proof (cases "length h = 1")
    case True
    then show ?thesis by (simp add: popNode_def)
  next
    case False
    moreover have "length h \<noteq> 0" using that by simp
    ultimately show ?thesis by (simp add: popNode_def Let_def len)
  qed
  show ?thesis
  proof (relation "measure (\<lambda>(g, s). length (queue s))", goal_cases)
    case 1
    show ?case by simp
  next
    case (2 g s x q)
    have "q = snd (popNode (queue s))" using 2(2)[symmetric] by simp
    then show ?case using shrink[OF 2(1)] by simp
  next
    case (3 g s x q r)
    have "q = snd (popNode (queue s))" using 3(2)[symmetric] by simp
    then show ?case using shrink[OF 3(1)] by simp
  qed
qed

declare getNextNode.simps [simp del]

text \<open>\<open>Scheduler.removeEntity\<close> has an empty body: the heap keeps the entry.\<close>

definition scheduler_removeEntity :: "scheduler \<Rightarrow> string \<Rightarrow> scheduler" where
  "scheduler_removeEntity s entityId = s"

subsection \<open>Call sequences\<close>

text \<open>
  A call sequence against one World and one Scheduler. \<open>run\<close> returns the heap nodes of the
  entities that the \<open>GetNext\<close> calls dispatched, in order, and the final state.
\<close>

datatype call =
    Schedule ref "time option"
  | GetNext
  | Deactivate ref
  | Activate ref
  | RemoveEntity string
  | ClearEntities

fun step :: "call \<Rightarrow> game \<times> scheduler \<Rightarrow> ref node option \<times> (game \<times> scheduler)" where
  "step (Schedule r d) (g, s) = (None, schedule g s (Some r) d)"
| "step GetNext (g, s) = (case getNextNode g s of (n, s1) \<Rightarrow> (n, (g, s1)))"
| "step (Deactivate r) (g, s) = (None, (g\<lparr>store := (store g)(r := deactivate (store g r))\<rparr>, s))"
| "step (Activate r) (g, s) = (None, (g\<lparr>store := (store g)(r := activate (store g r))\<rparr>, s))"
| "step (RemoveEntity i) (g, s) = (None, (snd (removeEntity g i), scheduler_removeEntity s i))"
| "step ClearEntities (g, s) = (None, (clearEntities g, s))"

fun run :: "call list \<Rightarrow> game \<times> scheduler \<Rightarrow> ref node list \<times> (game \<times> scheduler)" where
  "run [] c = ([], c)"
| "run (a # as) c =
     (case step a c of
        (out, c1) \<Rightarrow>
          (case run as c1 of
             (outs, c2) \<Rightarrow> ((case out of None \<Rightarrow> outs | Some n \<Rightarrow> n # outs), c2)))"

definition dispatched :: "call list \<Rightarrow> game \<times> scheduler \<Rightarrow> ref node list" where
  "dispatched cs c = fst (run cs c)"

definition final :: "call list \<Rightarrow> game \<times> scheduler \<Rightarrow> game \<times> scheduler" where
  "final cs c = snd (run cs c)"

fun isSchedule :: "call \<Rightarrow> bool" where
  "isSchedule (Schedule r d) = True"
| "isSchedule c = False"

text \<open>
  What a run of \<open>schedule\<close> calls followed by \<open>getNextEntity\<close> calls is expected to return.
  \<open>scheduledNode g now (r, d)\<close> is the entry that \<open>schedule(r, d)\<close> asks for at scheduler time
  \<open>now\<close>: the entity under the timestamp \<open>now + delay\<close>, the delay being \<open>d\<close> or, when \<open>d\<close> is
  \<open>null\<close>, the entity's own action delay. \<open>scheduleThenPop rts ds k\<close> is the call sequence that
  schedules the requests \<open>rts\<close> in order, then deactivates the entities \<open>ds\<close>, then calls
  \<open>getNextEntity\<close> \<open>k\<close> times. \<open>expectedEntries\<close> are the entries of the requests for entities
  that are active when they are scheduled and are not deactivated afterwards.
\<close>

definition scheduledNode :: "game \<Rightarrow> time \<Rightarrow> ref \<times> time option \<Rightarrow> ref node" where
  "scheduledNode g now rd =
     \<lparr>item = fst rd,
      priority = now + (case snd rd of Some d \<Rightarrow> d | None \<Rightarrow> getActionDelay (store g (fst rd)))\<rparr>"

definition scheduleThenPop :: "(ref \<times> time option) list \<Rightarrow> ref list \<Rightarrow> nat \<Rightarrow> call list" where
  "scheduleThenPop rts ds k = map (case_prod Schedule) rts @ map Deactivate ds @ replicate k GetNext"

definition expectedEntries :: "game \<Rightarrow> scheduler \<Rightarrow> (ref \<times> time option) list \<Rightarrow> ref list \<Rightarrow> ref node list" where
  "expectedEntries g s rts ds =
     map (scheduledNode g (currentTime s))
       (filter (\<lambda>rd. active (store g (fst rd)) \<and> fst rd \<notin> set ds) rts)"


section \<open>SkillsSystem\<close>

definition weaponSkillMapping :: "string \<Rightarrow> string option" where
  "weaponSkillMapping w =
     (if w = ''sword'' then Some ''1h_slash''
      else if w = ''longsword'' then Some ''2h_slash''
      else if w = ''mace'' then Some ''1h_blunt''
      else if w = ''warhammer'' then Some ''2h_blunt''
      else if w = ''dagger'' then Some ''1h_pierce''
      else if w = ''spear'' then Some ''2h_pierce''
      else if w = ''unarmed'' then Some ''hand_to_hand''
      else None)"

definition skillNames :: "string list" where
  "skillNames = [''1h_slash'', ''2h_slash'', ''1h_blunt'', ''2h_blunt'', ''1h_pierce'',
     ''2h_pierce'', ''hand_to_hand'', ''dodge'', ''block'', ''offense'', ''defense'']"

text \<open>\<open>initializeEntity\<close>: every skill starts at level 0 with 0 of 20 experience.\<close>

definition initializeEntity :: "entity \<Rightarrow> entity" where
  "initializeEntity e =
     e\<lparr>components := (components e)\<lparr>skills :=
        Some (\<lambda>n. if n \<in> set skillNames
                    then Some \<lparr>level = 0, experience = 0, maxExperience = 20\<rparr> else None)\<rparr>\<rparr>"

text \<open>
  The \<open>while\<close> loop of \<open>gainSkillExperience\<close>: it carries the skill object and the
  \<open>leveledUp\<close> flag. \<open>Math.floor(maxExperience * 1.1)\<close> is taken on exact reals.
\<close>

function levelUpLoop :: "skill \<Rightarrow> int \<Rightarrow> bool \<Rightarrow> skill \<times> bool" where
  "levelUpLoop sk maxSkillLevel leveledUp =
     (if experience sk \<ge> maxExperience sk \<and> level sk < maxSkillLevel
      then levelUpLoop
             (sk\<lparr>experience := experience sk - maxExperience sk,
                 level := level sk + 1,
                 maxExperience := of_int \<lfloor>maxExperience sk * (11 / 10)\<rfloor>\<rparr>)
             maxSkillLevel True
      else (sk, leveledUp))"
  by pat_completeness auto
termination
  by (relation "measure (\<lambda>(sk, maxSkillLevel, leveledUp). nat (maxSkillLevel - level sk))") auto

declare levelUpLoop.simps [simp del]

text \<open>The level cap of an entity's skills: \<open>playerLevel ? playerLevel.value * 5 : 5\<close>.\<close>

definition maxSkillLevelOf :: "entity \<Rightarrow> int" where
  "maxSkillLevelOf e =
     (case level_comp (components e) of
        Some playerLevel \<Rightarrow> lvalue playerLevel * 5
      | None \<Rightarrow> 5)"

definition gainSkillExperience :: "entity \<Rightarrow> string \<Rightarrow> real \<Rightarrow> bool \<times> entity" where
  "gainSkillExperience e skillName xp =
     (case skills (components e) of
        None \<Rightarrow> (False, e)
      | Some sks \<Rightarrow>
          (case sks skillName of
             None \<Rightarrow> (False, e)
           | Some sk \<Rightarrow>
               let maxSkillLevel = maxSkillLevelOf e
               in if level sk \<ge> maxSkillLevel then (False, e)
                  else let sk1 = sk\<lparr>experience := experience sk + xp\<rparr>;
                           (sk2, leveledUp) = levelUpLoop sk1 maxSkillLevel False
                       in (leveledUp,
                           e\<lparr>components := (components e)\<lparr>skills :=
                               Some (sks(skillName \<mapsto> sk2))\<rparr>\<rparr>)))"

text \<open>A sequence of \<open>gainSkillExperience\<close> calls on one entity.\<close>

fun gainAll :: "entity \<Rightarrow> (string \<times> real) list \<Rightarrow> entity" where
  "gainAll e [] = e"
| "gainAll e ((n, xp) # cs) = gainAll (snd (gainSkillExperience e n xp)) cs"

definition skillLevel :: "entity \<Rightarrow> string \<Rightarrow> int option" where
  "skillLevel e n =
     (case skills (components e) of
        None \<Rightarrow> None
      | Some sks \<Rightarrow> map_option level (sks n))"

record bonuses =
  bdamage :: real
  bhitChance :: real
  dodgeChance :: real
  blockChance :: real
  bdefense :: real

text \<open>\<open>getSkillBonuses(entity, weapon)\<close>; \<open>weapon\<close> may be \<open>null\<close>.\<close>

definition getSkillBonuses :: "entity \<Rightarrow> gear option \<Rightarrow> bonuses" where
  "getSkillBonuses e wpn =
     (let b0 = \<lparr>bdamage = 0, bhitChance = 0, dodgeChance = 0, blockChance = 0, bdefense = 0\<rparr>
      in case skills (components e) of
           None \<Rightarrow> b0
         | Some sks \<Rightarrow>
             let lev = (\<lambda>n. case sks n of Some sk \<Rightarrow> of_int (level sk) | None \<Rightarrow> (0::real));
                 b1 = (case wpn of
                         None \<Rightarrow> b0
                       | Some w \<Rightarrow>
                           let weaponSkill = (case weaponSkillMapping (gtype w) of
                                                Some n \<Rightarrow> n | None \<Rightarrow> ''1h_slash'');
                               skillLevel = lev weaponSkill
                           in b0\<lparr>bdamage := bdamage b0 + skillLevel * (1 / 2),
                                  bhitChance := bhitChance b0 + skillLevel * 2\<rparr>);
                 dodgeLevel = lev ''dodge'';
                 b2 = b1\<lparr>dodgeChance := dodgeLevel * (3 / 2)\<rparr>;
                 shield = (case equipment (components e) of
                             None \<Rightarrow> False
                           | Some eq \<Rightarrow>
                               (case secondary eq of
                                  None \<Rightarrow> False
                                | Some it \<Rightarrow> gtype it = ''shield''));
                 b3 = (if shield
                       then let blockLevel = lev ''block''
                            in b2\<lparr>blockChance := blockLevel * 2,
                                   bdefense := bdefense b2 + blockLevel * (3 / 10)\<rparr>
                       else b2);
                 offenseLevel = lev ''offense'';
                 b4 = b3\<lparr>bdamage := bdamage b3 + offenseLevel * (3 / 10),
                         bhitChance := bhitChance b3 + offenseLevel * 1\<rparr>;
                 defenseLevel = lev ''defense'';
                 b5 = b4\<lparr>bdefense := bdefense b4 + defenseLevel * (1 / 2)\<rparr>
             in b5)"

section \<open>EquipmentSystem\<close>

record damageResult =
  damage :: real
  hitChance :: real
  swingSpeed :: real

text \<open>\<open>EquipmentSystem.calculateDamage(entity)\<close>.\<close>

definition equipment_calculateDamage :: "game \<Rightarrow> entity \<Rightarrow> damageResult" where
  "equipment_calculateDamage g e =
     (case stats (components e) of
        None \<Rightarrow> \<lparr>damage = 1, hitChance = 50, swingSpeed = 1\<rparr>
      | Some st \<Rightarrow>
          let strengthBonus = of_int \<lfloor>(strength st - 10) * (1 / 2)\<rfloor>;
              baseDamage = 1 + strengthBonus;
              dexterityBonus = of_int \<lfloor>(dexterity st - 10) * (3 / 10)\<rfloor>;
              hitCh = 50 + dexterityBonus;
              swingSp = 1 + (dexterity st - 10) * (2 / 100);
              wpn = (case equipment (components e) of
                       None \<Rightarrow> None
                     | Some eq \<Rightarrow> (case primary eq of Some w \<Rightarrow> Some w | None \<Rightarrow> weapon eq));
              (baseDamage, swingSp, hitCh) =
                (case wpn of
                   None \<Rightarrow> (baseDamage, swingSp, hitCh)
                 | Some w \<Rightarrow>
                     let baseDamage = baseDamage + gdamage w;
                         swingSp = swingSp * (if gspeed w = 0 then 1 else gspeed w);
                         hitCh = hitCh + of_int \<lfloor>gdamage w * (1 / 2)\<rfloor>
                     in if skillsSystem g
                        then let skillBonuses = getSkillBonuses e (Some w)
                             in (baseDamage + bdamage skillBonuses, swingSp,
                                 hitCh + bhitChance skillBonuses)
                        else (baseDamage, swingSp, hitCh));
              hitCh = max 10 (min 95 hitCh)
          in \<lparr>damage = max 1 baseDamage, hitChance = hitCh,
              swingSpeed = max (3 / 10) (min 2 swingSp)\<rparr>)"

definition armorSlots :: "(equipment_c \<Rightarrow> gear option) list" where
  "armorSlots = [helm, shoulder, chest, arms, legs, wrist1, wrist2, hands, feet]"

text \<open>\<open>EquipmentSystem.calculateDefense(entity)\<close>.\<close>

definition equipment_calculateDefense :: "game \<Rightarrow> entity \<Rightarrow> real" where
  "equipment_calculateDefense g e =
     (let defense = (case stats (components e) of
                       Some st \<Rightarrow> of_int \<lfloor>(constitution st - 10) * (2 / 10)\<rfloor>
                     | None \<Rightarrow> 0);
          defense =
            (case equipment (components e) of
               None \<Rightarrow> defense
             | Some eq \<Rightarrow>
                 let defense = (case armor eq of
                                  Some it \<Rightarrow> defense + gdefense it
                                | None \<Rightarrow> defense)
                 in foldl (\<lambda>d slot. case slot eq of
                                        Some it \<Rightarrow> if gdefense it \<noteq> 0 then d + gdefense it else d
                                      | None \<Rightarrow> d)
                      defense armorSlots);
          defense = (if skillsSystem g
                     then defense + bdefense (getSkillBonuses e None)
                     else defense)
      in max 0 defense)"

section \<open>CharacterProgress\<close>

datatype err = TypeError

definition experienceTable :: "real list" where
  "experienceTable = [0, 100, 250, 450, 700, 1000, 1350, 1750, 2200, 2700, 3250, 3850, 4500,
     5200, 5950, 6750, 7600, 8500, 9450, 10450]"

definition getExperienceForLevel :: "int \<Rightarrow> real" where
  "getExperienceForLevel lv =
     (if lv \<le> 0 then 0
      else if lv > int (length experienceTable)
      then let baseExp = experienceTable ! (length experienceTable - 1);
               extraLevels = lv - int (length experienceTable)
           in baseExp + of_int extraLevels * 500
      else experienceTable ! nat (lv - 1))"

text \<open>
  \<open>increaseStats\<close> draws \<open>totalPoints\<close> (1 to 3) and then one stat per point among strength,
  dexterity, intelligence and constitution. The draws are the list \<open>picks\<close> of stat indices
  0 to 3, one per point; \<open>(stat || 10) + 1\<close> reads a stat of 0 as 10.
\<close>

definition bumpStat :: "stats_c \<Rightarrow> nat \<Rightarrow> stats_c" where
  "bumpStat st i =
     (if i = 0 then st\<lparr>strength := (if strength st = 0 then 10 else strength st) + 1\<rparr>
      else if i = 1 then st\<lparr>dexterity := (if dexterity st = 0 then 10 else dexterity st) + 1\<rparr>
      else if i = 2
      then st\<lparr>intelligence := (if intelligence st = 0 then 10 else intelligence st) + 1\<rparr>
      else st\<lparr>constitution := (if constitution st = 0 then 10 else constitution st) + 1\<rparr>)"

definition increaseStats :: "entity \<Rightarrow> nat list \<Rightarrow> entity" where
  "increaseStats e picks =
     (case stats (components e) of
        None \<Rightarrow> e
      | Some st \<Rightarrow> e\<lparr>components := (components e)\<lparr>stats := Some (foldl bumpStat st picks)\<rparr>\<rparr>)"

definition performLevelUp :: "entity \<Rightarrow> nat list \<Rightarrow> entity" where
  "performLevelUp e picks =
     (case level_comp (components e) of
        None \<Rightarrow> e
      | Some lc \<Rightarrow>
          (case stats (components e) of
             None \<Rightarrow> e
           | Some st \<Rightarrow>
               let lc1 = lc\<lparr>lvalue := lvalue lc + 1\<rparr>;
                   lc2 = lc1\<lparr>experienceToNext :=
                           getExperienceForLevel (lvalue lc1 + 1) - lexperience lc1\<rparr>;
                   e1 = e\<lparr>components := (components e)\<lparr>level_comp := Some lc2\<rparr>\<rparr>;
                   e2 = increaseStats e1 picks;
                   e3 = (case health (components e2) of
                           None \<Rightarrow> e2
                         | Some h \<Rightarrow>
                             let healthIncrease = 4;
                                 h1 = h\<lparr>hmax := hmax h + healthIncrease\<rparr>
                             in e2\<lparr>components := (components e2)\<lparr>health :=
                                    Some (h1\<lparr>current := hmax h1\<rparr>)\<rparr>\<rparr>);
                   e4 = (case mana (components e3) of
                           None \<Rightarrow> e3
                         | Some m \<Rightarrow>
                             let manaIncrease = 2;
                                 m1 = m\<lparr>mmax := mmax m + manaIncrease\<rparr>
                             in e3\<lparr>components := (components e3)\<lparr>mana :=
                                    Some (m1\<lparr>mcurrent := mmax m1\<rparr>)\<rparr>\<rparr>)
               in e4))"

definition checkLevelUp :: "entity \<Rightarrow> nat list \<Rightarrow> bool \<times> entity" where
  "checkLevelUp e picks =
     (case level_comp (components e) of
        None \<Rightarrow> (False, e)
      | Some lc \<Rightarrow>
          let currentLevel = lvalue lc;
              requiredExp = getExperienceForLevel (currentLevel + 1)
          in if lexperience lc \<ge> requiredExp then (True, performLevelUp e picks)
             else (False, e))"

text \<open>
  \<open>addExperience\<close>: without a level component the code evaluates \<open>levelComponent.value\<close> on
  \<open>undefined\<close> and throws a TypeError.
\<close>

definition addExperience :: "entity \<Rightarrow> real \<Rightarrow> nat list \<Rightarrow> err + entity" where
  "addExperience e xp picks =
     (case level_comp (components e) of
        None \<Rightarrow> Inl TypeError
      | Some lc \<Rightarrow>
          let e1 = e\<lparr>components := (components e)\<lparr>level_comp :=
                      Some (lc\<lparr>lexperience := lexperience lc + xp\<rparr>)\<rparr>\<rparr>
          in Inr (snd (checkLevelUp e1 picks)))"

section \<open>CombatSystem\<close>

text \<open>
  The random draws and the clock are inputs: \<open>now\<close> is \<open>Date.now()\<close>, \<open>hitRoll\<close>, \<open>blockRoll\<close>
  and \<open>dodgeRoll\<close> are the values of \<open>Math.random()\<close> in \<open>rollToHit\<close>, in \<open>checkBlock\<close> and in
  the miss branch of \<open>attackTarget\<close>, \<open>swingId\<close> is the generated id of the swing animation
  and \<open>statPicks\<close> the draws of \<open>increaseStats\<close>.
\<close>

record rolls =
  hitRoll :: real
  blockRoll :: real
  dodgeRoll :: real
  swingId :: string
  statPicks :: "nat list"

definition isDead :: "entity \<Rightarrow> bool" where
  "isDead e = (case health (components e) of Some h \<Rightarrow> current h \<le> 0 | None \<Rightarrow> False)"

definition canAttack :: "entity \<Rightarrow> entity \<Rightarrow> bool" where
  "canAttack attacker target =
     (if \<not> active attacker \<or> \<not> active target then False
      else if eid attacker = eid target then False
      else if isDead target then False
      else True)"

definition calculateDefense :: "game \<Rightarrow> entity \<Rightarrow> real" where
  "calculateDefense g e = equipment_calculateDefense g e"

definition calculateDamage :: "game \<Rightarrow> entity \<Rightarrow> entity \<Rightarrow> real" where
  "calculateDamage g attacker target =
     (let damageResult = equipment_calculateDamage g attacker;
          baseDamage = damage damageResult;
          defense = calculateDefense g target;
          finalDamage = max 1 (baseDamage - defense)
      in finalDamage)"

definition calculateDodge :: "game \<Rightarrow> entity \<Rightarrow> real" where
  "calculateDodge g e =
     (case stats (components e) of
        None \<Rightarrow> 0
      | Some st \<Rightarrow>
          if agility st = 0 then 0
          else let baseDodge = 0;
                   agilityBonus = (agility st - 10) * 2;
                   totalDodge = max 0 (baseDodge + agilityBonus);
                   totalDodge = (if skillsSystem g
                                 then totalDodge + dodgeChance (getSkillBonuses e None)
                                 else totalDodge)
               in min 50 totalDodge)"

definition rollToHit :: "game \<Rightarrow> entity \<Rightarrow> entity \<Rightarrow> real \<Rightarrow> bool" where
  "rollToHit g attacker target rnd =
     (case stats (components attacker) of
        None \<Rightarrow> rnd < 1 / 2
      | Some attackerStats \<Rightarrow>
          (case stats (components target) of
             None \<Rightarrow> rnd < 1 / 2
           | Some targetStats \<Rightarrow>
               let baseHitChance = 50;
                   dexBonus = (dexterity attackerStats - 10) * 2;
                   dodge = calculateDodge g target;
                   finalHitChance = max 5 (min 95 (baseHitChance + dexBonus - dodge));
                   roll = rnd * 100
               in roll < finalHitChance))"

definition checkBlock :: "game \<Rightarrow> entity \<Rightarrow> real \<Rightarrow> bool" where
  "checkBlock g target rnd =
     (case equipment (components target) of
        None \<Rightarrow> False
      | Some eq \<Rightarrow>
          (case secondary eq of
             None \<Rightarrow> False
           | Some it \<Rightarrow>
               if gtype it \<noteq> ''shield'' then False
               else let blockCh = (if skillsSystem g
                                   then blockChance (getSkillBonuses target None) else 0);
                        totalBlockChance = 10 + blockCh
                    in rnd * 100 < totalBlockChance))"

definition addHitEffect :: "entity \<Rightarrow> entity" where
  "addHitEffect e = e\<lparr>components := (components e)\<lparr>hitEffect := Some (3, 3)\<rparr>\<rparr>"

definition applyDamage :: "entity \<Rightarrow> real \<Rightarrow> entity" where
  "applyDamage e dmg =
     (case health (components e) of
        None \<Rightarrow> e
      | Some h \<Rightarrow>
          addHitEffect (e\<lparr>components := (components e)\<lparr>health :=
             Some (h\<lparr>current := max 0 (current h - dmg)\<rparr>)\<rparr>\<rparr>))"

text \<open>
  \<open>createSwingAnimation\<close> adds a new \<open>swing_animation\<close> entity at the target's position to the
  World. Of the animation object only what an \<open>Entity\<close> has is kept (its rendering fields are
  not part of the state).
\<close>

definition createSwingAnimation :: "game \<Rightarrow> ref \<Rightarrow> ref \<Rightarrow> string \<Rightarrow> game" where
  "createSwingAnimation g a t sid =
     (let r = nextRef g;
          target = store g t;
          swing = (newEntity sid ''swing_animation'' (xpos target) (ypos target))
                    \<lparr>components := emptyComps\<lparr>animation := Some (8, 0)\<rparr>\<rparr>;
          g1 = g\<lparr>store := (store g)(r := swing), nextRef := r + 1\<rparr>
      in addEntity g1 r)"

definition gainWeaponSkillExperience :: "game \<Rightarrow> ref \<Rightarrow> game" where
  "gainWeaponSkillExperience g a =
     (if \<not> skillsSystem g then g
      else let attacker = store g a;
               wpn = (case equipment (components attacker) of
                        None \<Rightarrow> None
                      | Some eq \<Rightarrow> (case weapon eq of Some w \<Rightarrow> Some w | None \<Rightarrow> primary eq))
           in case wpn of
                None \<Rightarrow> g
              | Some w \<Rightarrow>
                  let weaponType = (if gtype w = [] then ''sword'' else gtype w);
                      skillName = (case weaponSkillMapping weaponType of
                                     Some n \<Rightarrow> n | None \<Rightarrow> ''1h_slash'');
                      e1 = snd (gainSkillExperience attacker skillName 2);
                      e2 = snd (gainSkillExperience e1 ''offense'' 1)
                  in g\<lparr>store := (store g)(a := e2)\<rparr>)"

definition giveExperience :: "game \<Rightarrow> ref \<Rightarrow> ref \<Rightarrow> nat list \<Rightarrow> err + game" where
  "giveExperience g p m picks =
     (if \<not> characterProgress g then Inr g
      else case level_comp (components (store g m)) of
             None \<Rightarrow> Inr g
           | Some lv \<Rightarrow>
               let xp = of_int (lvalue lv) * 10
               in case addExperience (store g p) xp picks of
                    Inl er \<Rightarrow> Inl er
                  | Inr pe \<Rightarrow> Inr (g\<lparr>store := (store g)(p := pe)\<rparr>))"

definition createCorpse :: "game \<Rightarrow> ref \<Rightarrow> game" where
  "createCorpse g m =
     (let monster = store g m;
          corpseId = ''corpse_'' @ eid monster;
          r = nextRef g;
          c0 = newEntity corpseId ''corpse'' (xpos monster) (ypos monster);
          c1 = (case loot (components monster) of
                  None \<Rightarrow> c0
                | Some lt \<Rightarrow> c0\<lparr>components := (components c0)\<lparr>loot := Some lt\<rparr>\<rparr>);
          c2 = (case appearance (components monster) of
                  None \<Rightarrow> c1
                | Some ap \<Rightarrow>
                    c1\<lparr>components := (components c1)\<lparr>appearance := Some (''%'', ''#8B4513'')\<rparr>\<rparr>);
          c3 = c2\<lparr>components := (components c2)\<lparr>corpse :=
                  Some \<lparr>cmonsterType = (if monsterType monster = [] then ''monster''
                                         else monsterType monster),
                        looted = False\<rparr>\<rparr>\<rparr>;
          g1 = g\<lparr>store := (store g)(r := c3), nextRef := r + 1\<rparr>
      in addEntity g1 r)"

definition handleDeath :: "game \<Rightarrow> ref \<Rightarrow> nat list \<Rightarrow> err + game" where
  "handleDeath g t picks =
     (case (if etype (store g t) = ''monster'' \<and> player g \<noteq> None
            then giveExperience g (the (player g)) t picks
            else Inr g) of
        Inl er \<Rightarrow> Inl er
      | Inr g1 \<Rightarrow>
          let g2 = (if etype (store g1 t) = ''monster'' then createCorpse g1 t else g1)
          in Inr (snd (removeEntity g2 (eid (store g2 t)))))"

text \<open>
  \<open>lootCorpse(corpse, player, world)\<close>; \<open>rnd\<close> is the value of \<open>Math.random()\<close> of the gold
  roll.
\<close>

definition lootCorpse :: "game \<Rightarrow> ref \<Rightarrow> ref \<Rightarrow> real \<Rightarrow> bool \<times> game" where
  "lootCorpse g c p rnd =
     (case corpse (components (store g c)) of
        None \<Rightarrow> (False, g)
      | Some corpseComponent \<Rightarrow>
          if looted corpseComponent then (False, g)
          else case loot (components (store g c)) of
                 None \<Rightarrow> (False, g)
               | Some lt \<Rightarrow>
                   let (g1, lootedFlag) =
                         (case lgold lt of
                            None \<Rightarrow> (g, False)
                          | Some (gmin, gmax) \<Rightarrow>
                              let goldAmount = of_int \<lfloor>rnd * (gmax - gmin + 1)\<rfloor> + gmin
                              in if goldAmount > 0
                                 then let pl = store g p;
                                          amount = (case gold (components pl) of
                                                      None \<Rightarrow> 0 | Some am \<Rightarrow> am)
                                      in (g\<lparr>store := (store g)(p :=
                                             pl\<lparr>components := (components pl)\<lparr>gold :=
                                                Some (amount + goldAmount)\<rparr>\<rparr>)\<rparr>, True)
                                 else (g, False));
                       ce = store g1 c;
                       g2 = g1\<lparr>store := (store g1)(c :=
                              ce\<lparr>components := (components ce)\<lparr>corpse :=
                                 Some (corpseComponent\<lparr>looted := True\<rparr>)\<rparr>\<rparr>)\<rparr>;
                       g3 = (if lootedFlag then snd (removeEntity g2 (eid (store g2 c))) else g2)
                   in (lootedFlag, g3))"

text \<open>
  The local \<open>finalDamage\<close> of \<open>attackTarget\<close>, from \<open>damage\<close> and \<open>blocked\<close>:
  \<open>Math.floor(damage * 0.5)\<close> on a block.
\<close>

definition finalDamage :: "real \<Rightarrow> bool \<Rightarrow> real" where
  "finalDamage dmg blocked = (if blocked then of_int \<lfloor>dmg * (1 / 2)\<rfloor> else dmg)"

text \<open>The two branches of \<open>attackTarget\<close> after the hit roll.\<close>

definition attackTarget_hit :: "game \<Rightarrow> ref \<Rightarrow> ref \<Rightarrow> real \<Rightarrow> rolls \<Rightarrow> err + (bool \<times> game)" where
  "attackTarget_hit g a t dmg rnd =
     (let blocked = checkBlock g (store g t) (blockRoll rnd);
          g2 = (if blocked \<and> skillsSystem g
                then g\<lparr>store := (store g)(t := snd (gainSkillExperience (store g t) ''block'' 5))\<rparr>
                else g);
          g3 = g2\<lparr>store := (store g2)(t := applyDamage (store g2 t) (finalDamage dmg blocked))\<rparr>;
          g4 = createSwingAnimation g3 a t (swingId rnd)
      in case (if isDead (store g4 t) then handleDeath g4 t (statPicks rnd) else Inr g4) of
           Inl er \<Rightarrow> Inl er
         | Inr g5 \<Rightarrow> Inr (True, gainWeaponSkillExperience g5 a))"

definition attackTarget_miss :: "game \<Rightarrow> ref \<Rightarrow> ref \<Rightarrow> rolls \<Rightarrow> err + (bool \<times> game)" where
  "attackTarget_miss g a t rnd =
     (let g1 = createSwingAnimation g a t (swingId rnd);
          dodgeCh = calculateDodge g1 (store g1 t);
          g2 = (if dodgeRoll rnd * 100 < dodgeCh
                then (if skillsSystem g1
                      then g1\<lparr>store := (store g1)(t :=
                              snd (gainSkillExperience (store g1 t) ''dodge'' 3))\<rparr>
                      else g1)
                else g1)
      in Inr (False, g2))"

text \<open>\<open>attacker.addComponent('lastAttack', { time: now })\<close>.\<close>

definition setLastAttack :: "game \<Rightarrow> ref \<Rightarrow> real \<Rightarrow> game" where
  "setLastAttack g a now =
     g\<lparr>store := (store g)(a :=
        (store g a)\<lparr>components := (components (store g a))\<lparr>lastAttack := Some now\<rparr>\<rparr>)\<rparr>"

definition attackTarget :: "game \<Rightarrow> ref \<Rightarrow> ref \<Rightarrow> real \<Rightarrow> rolls \<Rightarrow> err + (bool \<times> game)" where
  "attackTarget g a t now rnd =
     (if \<not> canAttack (store g a) (store g t) then Inr (False, g)
      else let lastAttackTime = (case lastAttack (components (store g a)) of
                                   Some tm \<Rightarrow> tm | None \<Rightarrow> 0);
               damageResult = equipment_calculateDamage g (store g a);
               baseAttackSpeed = 6400;
               attackSpeed = baseAttackSpeed / swingSpeed damageResult
           in if now - lastAttackTime < attackSpeed then Inr (False, g)
              else let g1 = setLastAttack g a now;
                       dmg = calculateDamage g1 (store g1 a) (store g1 t);
                       hit = rollToHit g1 (store g1 a) (store g1 t) (hitRoll rnd)
                   in if hit then attackTarget_hit g1 a t dmg rnd
                      else attackTarget_miss g1 a t rnd)"

section \<open>MovementSystem\<close>

text \<open>\<open>Entity.distanceTo\<close>: the Euclidean distance, on exact reals.\<close>

definition distanceTo :: "entity \<Rightarrow> entity \<Rightarrow> real" where
  "distanceTo a b =
     (let dx = xpos a - xpos b;
          dy = ypos a - ypos b
      in sqrt (of_int (dx * dx + dy * dy)))"

definition setPosition :: "entity \<Rightarrow> int \<Rightarrow> int \<Rightarrow> entity" where
  "setPosition e px py = e\<lparr>xpos := px, ypos := py\<rparr>"

definition isPassable :: "game \<Rightarrow> int \<Rightarrow> int \<Rightarrow> bool" where
  "isPassable g px py =
     (if px < 0 \<or> px \<ge> width g \<or> py < 0 \<or> py \<ge> height g then False
      else passable g px py)"

definition getEntitiesAt :: "game \<Rightarrow> int \<Rightarrow> int \<Rightarrow> ref list" where
  "getEntitiesAt g px py =
     filter (\<lambda>r. xpos (store g r) = px \<and> ypos (store g r) = py \<and> active (store g r))
       (map snd (entities g))"

definition canMoveTo :: "game \<Rightarrow> entity \<Rightarrow> int \<Rightarrow> int \<Rightarrow> bool" where
  "canMoveTo g e px py =
     (if px < 0 \<or> px \<ge> width g \<or> py < 0 \<or> py \<ge> height g then False
      else if \<not> isPassable g px py then False
      else if list_ex (\<lambda>r. active (store g r) \<and> eid (store g r) \<noteq> eid e \<and>
                            etype (store g r) \<noteq> ''corpse'')
                (getEntitiesAt g px py)
      then False
      else True)"

text \<open>
  \<open>hasLineOfSight\<close>: the loop \<open>for (i = 1; i < steps; i++)\<close> returns false at the first
  impassable cell.
\<close>

definition hasLineOfSight :: "game \<Rightarrow> entity \<Rightarrow> entity \<Rightarrow> bool" where
  "hasLineOfSight g from to =
     (let dx = xpos to - xpos from;
          dy = ypos to - ypos from;
          distance = sqrt (of_int (dx * dx + dy * dy))
      in if distance = 0 then True
         else let steps = max \<bar>dx\<bar> \<bar>dy\<bar>;
                  stepX = (of_int dx / of_int steps :: real);
                  stepY = (of_int dy / of_int steps :: real)
              in list_all
                   (\<lambda>i. let checkX = \<lfloor>of_int (xpos from) + stepX * of_nat i + 1 / 2\<rfloor>;
                            checkY = \<lfloor>of_int (ypos from) + stepY * of_nat i + 1 / 2\<rfloor>
                        in isPassable g checkX checkY)
                   [1..<nat steps])"

text \<open>\<open>entity.setPosition(x, y)\<close> on the entity behind a reference.\<close>

definition moveEntity :: "game \<Rightarrow> ref \<Rightarrow> int \<Rightarrow> int \<Rightarrow> game" where
  "moveEntity g m px py = g\<lparr>store := (store g)(m := setPosition (store g m) px py)\<rparr>"

definition moveTowardsTarget :: "game \<Rightarrow> ref \<Rightarrow> ref \<Rightarrow> game" where
  "moveTowardsTarget g m t =
     (let entity = store g m;
          target = store g t;
          dx = xpos target - xpos entity;
          dy = ypos target - ypos entity;
          distance = sqrt (of_int (dx * dx + dy * dy))
      in if distance \<le> 3 / 2
         then let diagonalX = xpos entity + (if dx > 0 then 1 else -1);
                  diagonalY = ypos entity + (if dy > 0 then 1 else -1)
              in if dx \<noteq> 0 \<and> dy \<noteq> 0 \<and> canMoveTo g entity diagonalX diagonalY
                 then moveEntity g m diagonalX diagonalY
                 else let moveX = (if dx = 0 then 0 else if dx > 0 then 1 else -1);
                          moveY = (if dy = 0 then 0 else if dy > 0 then 1 else -1);
                          newX = xpos entity + moveX;
                          newY = ypos entity + moveY
                      in if canMoveTo g entity newX newY then moveEntity g m newX newY else g
         else if \<bar>dx\<bar> > \<bar>dy\<bar>
         then let moveX = (if dx > 0 then 1 else -1);
                  newX = xpos entity + moveX;
                  newY = ypos entity
              in if canMoveTo g entity newX newY then moveEntity g m newX newY else g
         else if \<bar>dy\<bar> > \<bar>dx\<bar>
         then let moveY = (if dy > 0 then 1 else -1);
                  newX = xpos entity;
                  newY = ypos entity + moveY
              in if canMoveTo g entity newX newY then moveEntity g m newX newY else g
         else let moveX = (if dx > 0 then 1 else -1);
                  moveY = (if dy > 0 then 1 else -1);
                  newX = xpos entity + moveX;
                  newY = ypos entity + moveY
              in if canMoveTo g entity newX newY then moveEntity g m newX newY
                 else let cardinalX = xpos entity + moveX;
                          cardinalY = ypos entity
                      in if canMoveTo g entity cardinalX cardinalY
                         then moveEntity g m cardinalX cardinalY
                         else let fallbackX = xpos entity;
                                  fallbackY = ypos entity + moveY
                              in if canMoveTo g entity fallbackX fallbackY
                                 then moveEntity g m fallbackX fallbackY
                                 else g)"

text \<open>
  The values of \<open>this.directions\<close> in insertion order; \<open>rnd\<close> is the draw of
  \<open>Math.random()\<close>, in [0, 1), so the index is below 8.
\<close>

definition directions :: "(int \<times> int) list" where
  "directions = [(0, -1), (0, 1), (1, 0), (-1, 0), (1, -1), (-1, -1), (1, 1), (-1, 1)]"

definition randomMovement :: "game \<Rightarrow> ref \<Rightarrow> real \<Rightarrow> game" where
  "randomMovement g m rnd =
     (let entity = store g m;
          randomDir = directions ! nat \<lfloor>rnd * of_nat (length directions)\<rfloor>;
          newX = xpos entity + fst randomDir;
          newY = ypos entity + snd randomDir
      in if canMoveTo g entity newX newY then moveEntity g m newX newY else g)"

text \<open>
  The notice part of \<open>processMonsterMovement\<close>: \<open>inSight\<close> is the condition
  \<open>distance <= alertRange && this.hasLineOfSight(entity, player, world)\<close>.
\<close>

definition updateNotice :: "notice_c \<Rightarrow> bool \<Rightarrow> notice_c" where
  "updateNotice nc inSight =
     (if inSight
      then (if \<not> hasNoticed nc
            then let nc1 = nc\<lparr>noticeTimer := noticeTimer nc + 1\<rparr>
                 in if noticeTimer nc1 \<ge> noticeDelay nc1 then nc1\<lparr>hasNoticed := True\<rparr>
                    else nc1
            else nc)
      else (if hasNoticed nc then nc\<lparr>hasNoticed := False, noticeTimer := 0\<rparr> else nc))"

text \<open>
  \<open>processMonsterMovement(entity, world)\<close>; \<open>moveRoll\<close> and \<open>dirRoll\<close> are the draws of the
  idle branch and of \<open>randomMovement\<close>.
\<close>

definition processMonsterMovement :: "game \<Rightarrow> ref \<Rightarrow> real \<Rightarrow> real \<Rightarrow> game" where
  "processMonsterMovement g m moveRoll dirRoll =
     (let entity = store g m
      in case ai (components entity) of
           None \<Rightarrow> g
         | Some aiComponent \<Rightarrow>
             (case notice (components entity) of
                None \<Rightarrow> g
              | Some noticeComponent \<Rightarrow>
                  (case visibility (components entity) of
                     None \<Rightarrow> g
                   | Some isVisible \<Rightarrow>
                       if \<not> isVisible then g
                       else case player g of
                              None \<Rightarrow> g
                            | Some p \<Rightarrow>
                                let distance = distanceTo entity (store g p);
                                    alertR = (if alertRange noticeComponent = 0 then 5
                                              else alertRange noticeComponent);
                                    nc1 = updateNotice noticeComponent
                                            (distance \<le> alertR \<and>
                                             hasLineOfSight g entity (store g p));
                                    g1 = g\<lparr>store := (store g)(m :=
                                           entity\<lparr>components := (components entity)\<lparr>notice :=
                                              Some nc1\<rparr>\<rparr>)\<rparr>
                                in if hasNoticed nc1
                                   then (if noticeTimer nc1 < noticeDelay nc1 then g1
                                         else moveTowardsTarget g1 m p)
                                   else (if moveRoll < 5 / 100
                                         then randomMovement g1 m dirRoll
                                         else g1))))"

text \<open>
  \<open>Game.updateMonsterVisibility\<close>, for one monster: the visibility flag follows the field of
  view radius 8, and a monster that just became invisible has its notice state reset.
\<close>

definition updateMonsterVisibility1 :: "game \<Rightarrow> ref \<Rightarrow> game" where
  "updateMonsterVisibility1 g m =
     (case player g of
        None \<Rightarrow> g
      | Some p \<Rightarrow>
          let monster = store g m
          in if \<not> active monster then g
             else case visibility (components monster) of
                    None \<Rightarrow> g
                  | Some wasVisible \<Rightarrow>
                      let isVis = (distanceTo monster (store g p) \<le> 8);
                          m1 = monster\<lparr>components := (components monster)\<lparr>visibility :=
                                  Some isVis\<rparr>\<rparr>;
                          m2 = (if wasVisible \<and> \<not> isVis
                                then (case notice (components m1) of
                                        None \<Rightarrow> m1
                                      | Some nc \<Rightarrow>
                                          m1\<lparr>components := (components m1)\<lparr>notice :=
                                             Some (nc\<lparr>hasNoticed := False,
                                                      noticeTimer := 0\<rparr>)\<rparr>\<rparr>)
                                else m1)
                      in g\<lparr>store := (store g)(m := m2)\<rparr>)"

section \<open>Sample states\<close>

definition sampleStore :: "ref \<Rightarrow> entity" where
  "sampleStore r =
     (if r = 0 then newEntity ''player'' ''player'' 1 1
      else if r = 1 then newEntity ''goblin_1'' ''monster'' 3 4
      else if r = 2 then newEntity ''orc_1'' ''monster'' 6 2
      else newEntity [] [] 0 0)"

definition sampleGame :: game where
  "sampleGame =
     \<lparr>store = sampleStore, nextRef = 3,
      entities = [(''player'', 0), (''goblin_1'', 1), (''orc_1'', 2)],
      player = Some 0, width = 80, height = 24, passable = (\<lambda>px py. True),
      skillsSystem = True, characterProgress = True\<rparr>"

definition sampleFighter :: entity where
  "sampleFighter =
     initializeEntity ((newEntity ''player'' ''player'' 1 1)
       \<lparr>components := emptyComps\<lparr>level_comp :=
          Some \<lparr>lvalue = 1, lexperience = 0, experienceToNext = 100\<rparr>\<rparr>\<rparr>)"

definition noEquipment :: equipment_c where
  "noEquipment = \<lparr>primary = None, weapon = None, secondary = None, armor = None, helm = None,
     shoulder = None, chest = None, arms = None, legs = None, wrist1 = None, wrist2 = None,
     hands = None, feet = None\<rparr>"

definition samplePlayer :: entity where
  "samplePlayer =
     initializeEntity ((newEntity ''player'' ''player'' 1 1)
       \<lparr>components := emptyComps
          \<lparr>health := Some \<lparr>current = 50, hmax = 50\<rparr>,
           stats := Some \<lparr>strength = 12, dexterity = 10, intelligence = 10, constitution = 10,
                          agility = 10\<rparr>,
           equipment := Some (noEquipment
              \<lparr>weapon := Some \<lparr>gtype = ''sword'', gdamage = 3, gspeed = 1, gdefense = 0\<rparr>,
               secondary := Some \<lparr>gtype = ''shield'', gdamage = 0, gspeed = 0, gdefense = 0\<rparr>,
               chest := Some \<lparr>gtype = ''armor'', gdamage = 0, gspeed = 0, gdefense = 1\<rparr>\<rparr>),
           level_comp := Some \<lparr>lvalue = 1, lexperience = 0, experienceToNext = 100\<rparr>\<rparr>\<rparr>)"

definition sampleGoblin :: entity where
  "sampleGoblin =
     (newEntity ''goblin_1'' ''monster'' 1 2)
       \<lparr>monsterType := ''goblin'',
        components := emptyComps
          \<lparr>health := Some \<lparr>current = 10, hmax = 10\<rparr>,
           speed := Some 1,
           level_comp := Some \<lparr>lvalue = 1, lexperience = 0, experienceToNext = 0\<rparr>,
           stats := Some \<lparr>strength = 12, dexterity = 14, intelligence = 6, constitution = 12,
                          agility = 8\<rparr>,
           equipment := Some noEquipment,
           ai := Some \<lparr>aitype = ''aggressive'', airange = 8\<rparr>,
           notice := Some \<lparr>hasNoticed = False, noticeTimer = 0, noticeDelay = 10, alertRange = 5\<rparr>,
           visibility := Some True,
           loot := Some \<lparr>lgold = Some (1, 5), litems = []\<rparr>\<rparr>\<rparr>"

definition duelGame :: game where
  "duelGame =
     \<lparr>store = (\<lambda>r. if r = 0 then samplePlayer else if r = 1 then sampleGoblin
                    else newEntity [] [] 0 0),
      nextRef = 2,
      entities = [(''player'', 0), (''goblin_1'', 1)],
      player = Some 0, width = 80, height = 24, passable = (\<lambda>px py. True),
      skillsSystem = True, characterProgress = True\<rparr>"

definition sampleRolls :: rolls where
  "sampleRolls = \<lparr>hitRoll = 0, blockRoll = 0, dodgeRoll = 0, swingId = ''swing_1'', statPicks = [0]\<rparr>"

text \<open>Reading the result of \<open>attackTarget\<close>: the returned boolean and the state left behind.\<close>

definition succeeded :: "err + (bool \<times> game) \<Rightarrow> bool" where
  "succeeded r = (case r of Inr (b, g) \<Rightarrow> b | Inl er \<Rightarrow> False)"

definition stateAfter :: "err + (bool \<times> game) \<Rightarrow> game" where
  "stateAfter r = snd (projr r)"

definition skillExperience :: "entity \<Rightarrow> string \<Rightarrow> real option" where
  "skillExperience e n =
     (case skills (components e) of
        None \<Rightarrow> None
      | Some sks \<Rightarrow> map_option experience (sks n))"

definition nimbleGame :: game where
  "nimbleGame =
     duelGame\<lparr>store := (store duelGame)(1 :=
        initializeEntity (sampleGoblin\<lparr>components := (components sampleGoblin)\<lparr>stats :=
           Some \<lparr>strength = 12, dexterity = 14, intelligence = 6, constitution = 12,
                 agility = 20\<rparr>\<rparr>\<rparr>))\<rparr>"

definition missRolls :: rolls where
  "missRolls = \<lparr>hitRoll = 99 / 100, blockRoll = 0, dodgeRoll = 0, swingId = ''swing_1'', statPicks = [0]\<rparr>"


lemmas sample_defs = duelGame_def samplePlayer_def sampleGoblin_def noEquipment_def sampleRolls_def
   newEntity_def emptyComps_def initializeEntity_def skillNames_def nimbleGame_def missRolls_def
lemmas combat_defs = attackTarget_def attackTarget_hit_def attackTarget_miss_def canAttack_def isDead_def
   equipment_calculateDamage_def equipment_calculateDefense_def calculateDamage_def calculateDefense_def
   calculateDodge_def rollToHit_def checkBlock_def getSkillBonuses_def weaponSkillMapping_def armorSlots_def
   applyDamage_def addHitEffect_def createSwingAnimation_def addEntity_def gainWeaponSkillExperience_def
   gainSkillExperience_def maxSkillLevelOf_def finalDamage_def handleDeath_def giveExperience_def
   createCorpse_def removeEntity_def addExperience_def checkLevelUp_def performLevelUp_def increaseStats_def
   bumpStat_def getExperienceForLevel_def experienceTable_def deactivate_def setLastAttack_def
   succeeded_def stateAfter_def skillExperience_def


text \<open>The state left by \<open>handleDeath\<close> when it does not throw.\<close>

definition gameAfter :: "err + game \<Rightarrow> game" where
  "gameAfter r = projr r"

definition deadGame :: game where
  "deadGame =
     duelGame\<lparr>store := (store duelGame)(1 :=
        sampleGoblin\<lparr>components := (components sampleGoblin)\<lparr>health :=
           Some \<lparr>current = 0, hmax = 10\<rparr>\<rparr>\<rparr>)\<rparr>"

definition corpseGame :: game where
  "corpseGame = gameAfter (handleDeath deadGame 1 [0])"

definition zeroGoldGame :: game where
  "zeroGoldGame =
     gameAfter (handleDeath
       (deadGame\<lparr>store := (store deadGame)(1 :=
           (store deadGame 1)\<lparr>components := (components (store deadGame 1))\<lparr>loot :=
              Some \<lparr>lgold = Some (0, 0), litems = []\<rparr>\<rparr>\<rparr>)\<rparr>) 1 [0])"

lemmas loot_defs = corpseGame_def zeroGoldGame_def gameAfter_def deadGame_def lootCorpse_def

text \<open>
  The duel with the goblin at \<open>(1, py)\<close>, the player at \<open>(1, 1)\<close>, and the goblin's notice
  component set: alert range 5, notice delay 10.
\<close>

definition noticeGame :: "int \<Rightarrow> bool \<Rightarrow> int \<Rightarrow> game" where
  "noticeGame py hn tm =
     duelGame\<lparr>store := (store duelGame)(1 :=
        sampleGoblin\<lparr>ypos := py,
          components := (components sampleGoblin)\<lparr>notice :=
            Some \<lparr>hasNoticed = hn, noticeTimer = tm, noticeDelay = 10, alertRange = 5\<rparr>\<rparr>\<rparr>)\<rparr>"

definition weakGame :: game where
  "weakGame =
     duelGame\<lparr>store := (store duelGame)(1 :=
        sampleGoblin\<lparr>components := (components sampleGoblin)\<lparr>health :=
           Some \<lparr>current = 5, hmax = 10\<rparr>\<rparr>\<rparr>)\<rparr>"

section \<open>Properties of the priority queue\<close>

lemma length_swap [simp]: "length (swap h i j) = length h"
  by (simp add: swap_def)

lemma mset_swap_pq: "i < length h \<Longrightarrow> j < length h \<Longrightarrow> mset (swap h i j) = mset h"
  unfolding swap_def by (simp add: mset_swap)

lemma nth_swap: "i < length h \<Longrightarrow> j < length h \<Longrightarrow> k < length h \<Longrightarrow>
  swap h i j ! k = (if k = j then h ! i else if k = i then h ! j else h ! k)"
  by (auto simp: swap_def nth_list_update)

lemma length_bubbleUp [simp]: "length (bubbleUp h i) = length h"
  by (induction h i rule: bubbleUp.induct) (subst bubbleUp.simps, simp add: Let_def)

lemma length_bubbleDown [simp]: "length (bubbleDown h i) = length h"
  by (induction h i rule: bubbleDown.induct) (subst bubbleDown.simps, simp add: Let_def)

lemma mset_bubbleUp: "i < length h \<Longrightarrow> mset (bubbleUp h i) = mset h"
proof (induction h i rule: bubbleUp.induct)
  case (1 h index)
  show ?case
  proof (cases "index \<noteq> 0 \<and> priority (h ! index) < priority (h ! ((index - 1) div 2))")
    case True
    then have lt: "(index - 1) div 2 < length h" using 1(2) by auto
    have "mset (bubbleUp (swap h index ((index - 1) div 2)) ((index - 1) div 2))
            = mset (swap h index ((index - 1) div 2))"
      using 1(1)[OF _ refl] True lt by simp
    then show ?thesis
      using True lt 1(2) by (subst bubbleUp.simps) (simp add: Let_def mset_swap_pq)
  next
    case False
    then show ?thesis by (subst bubbleUp.simps) (auto simp: Let_def)
  qed
qed

lemma mset_bubbleDown: "i < length h \<Longrightarrow> mset (bubbleDown h i) = mset h"
proof (induction h i rule: bubbleDown.induct)
  case (1 h index)
  define s1 where "s1 = (if 2 * index + 1 < length h \<and> priority (h ! (2 * index + 1)) < priority (h ! index)
                      then 2 * index + 1 else index)"
  define s2 where "s2 = (if 2 * index + 2 < length h \<and> priority (h ! (2 * index + 2)) < priority (h ! s1)
                      then 2 * index + 2 else s1)"
  have s2lt: "s2 < length h" using 1(2) by (auto simp: s1_def s2_def)
  have unf: "bubbleDown h index = (if s2 \<noteq> index then bubbleDown (swap h index s2) s2 else h)"
    by (subst bubbleDown.simps) (simp add: Let_def s1_def s2_def)
  show ?case
  proof (cases "s2 = index")
    case True
    then show ?thesis using unf by simp
  next
    case False
    have "mset (bubbleDown (swap h index s2) s2) = mset (swap h index s2)"
      using 1(1)[OF refl refl refl s1_def s2_def False] s2lt
      by simp
    then show ?thesis using unf False s2lt 1(2) by (simp add: mset_swap_pq)
  qed
qed


lemma parent_lt: "0 < (i::nat) \<Longrightarrow> (i - 1) div 2 < i"
  by arith

lemma bubbleUp_heap_ok:
  assumes "i < length h"
    and "\<forall>j<length h. 0 < j \<longrightarrow> j \<noteq> i \<longrightarrow> priority (h ! ((j - 1) div 2)) \<le> priority (h ! j)"
    and "\<forall>j<length h. 0 < j \<longrightarrow> (j - 1) div 2 = i \<longrightarrow> 0 < i \<longrightarrow>
            priority (h ! ((i - 1) div 2)) \<le> priority (h ! j)"
  shows "heap_ok (bubbleUp h i)"
  using assms
proof (induction h i rule: bubbleUp.induct)
  case (1 h index)
  let ?p = "(index - 1) div 2"
  show ?case
  proof (cases "index = 0")
    case True
    then show ?thesis using 1(3) by (subst bubbleUp.simps) (auto simp: heap_ok_def)
  next
    case nz: False
    then have plt: "?p < index" by auto
    show ?thesis
    proof (cases "priority (h ! index) < priority (h ! ?p)")
      case False
      then have "heap_ok h"
        unfolding heap_ok_def using 1(3) by (metis not_le_imp_less)
      then show ?thesis using nz False by (subst bubbleUp.simps) (simp add: Let_def)
    next
      case True
      let ?h = "swap h index ?p"
      have pl: "?p < length h" using plt 1(2) by simp
      have nth: "\<And>k. k < length h \<Longrightarrow>
          ?h ! k = (if k = ?p then h ! index else if k = index then h ! ?p else h ! k)"
        using nth_swap[OF 1(2) pl] by simp
      have A: "\<forall>j<length ?h. 0 < j \<longrightarrow> j \<noteq> ?p \<longrightarrow>
                 priority (?h ! ((j - 1) div 2)) \<le> priority (?h ! j)"
      proof (intro allI impI)
        fix j assume j: "j < length ?h" "0 < j" "j \<noteq> ?p"
        then have jl: "j < length h" and pjl: "(j - 1) div 2 < length h" by auto
        show "priority (?h ! ((j - 1) div 2)) \<le> priority (?h ! j)"
        proof (cases "j = index")
          case True
          then show ?thesis using nth[OF jl] nth[OF pl] \<open>priority (h ! index) < priority (h ! ?p)\<close> plt
            by simp
        next
          case jni: False
          have hj: "?h ! j = h ! j" using nth[OF jl] j jni by simp
          have base: "priority (h ! ((j - 1) div 2)) \<le> priority (h ! j)"
            using 1(3) jl j(2) jni by blast
          show ?thesis
          proof (cases "(j - 1) div 2 = index")
            case True
            then have "priority (h ! ?p) \<le> priority (h ! j)"
              using 1(4) jl j(2) nz by simp
            then show ?thesis using True nth[OF pjl] hj plt by simp
          next
            case pni: False
            show ?thesis
            proof (cases "(j - 1) div 2 = ?p")
              case True
              then show ?thesis
                using nth[OF pjl] hj base \<open>priority (h ! index) < priority (h ! ?p)\<close> by simp
            next
              case False
              then show ?thesis using nth[OF pjl] hj base pni by simp
            qed
          qed
        qed
      qed
      have B: "\<forall>j<length ?h. 0 < j \<longrightarrow> (j - 1) div 2 = ?p \<longrightarrow> 0 < ?p \<longrightarrow>
                 priority (?h ! ((?p - 1) div 2)) \<le> priority (?h ! j)"
      proof (intro allI impI)
        fix j assume j: "j < length ?h" "0 < j" "(j - 1) div 2 = ?p" "0 < ?p"
        then have jl: "j < length h" by simp
        let ?q = "(?p - 1) div 2"
        have qp: "?q < ?p" using parent_lt[OF j(4)] .
        have ql: "?q < length h" using qp pl by simp
        have hq: "?h ! ?q = h ! ?q" using nth[OF ql] qp plt by simp
        have qp_le: "priority (h ! ?q) \<le> priority (h ! ?p)"
          using 1(3) pl j(4) plt by (metis less_irrefl)
        have jnp: "j \<noteq> ?p" using j(3) j(2) by auto
        show "priority (?h ! ?q) \<le> priority (?h ! j)"
        proof (cases "j = index")
          case True
          then show ?thesis using nth[OF jl] hq qp_le plt by simp
        next
          case False
          then have "priority (h ! ?p) \<le> priority (h ! j)"
            using 1(3) jl j(2) j(3) by metis
          then show ?thesis using nth[OF jl] False jnp hq qp_le by simp
        qed
      qed
      have "heap_ok (bubbleUp ?h ?p)"
        using 1(1)[OF nz refl True _ A B] pl by simp
      then show ?thesis using nz True by (subst bubbleUp.simps) (simp add: Let_def)
    qed
  qed
qed

lemma heap_ok_push: "heap_ok h \<Longrightarrow> heap_ok (push h it p)"
  unfolding push_def Let_def
  by (rule bubbleUp_heap_ok) (auto simp: heap_ok_def nth_append)

lemma mset_push: "mset (push h it p) = add_mset \<lparr>item = it, priority = p\<rparr> (mset h)"
  unfolding push_def Let_def by (simp add: mset_bubbleUp)


lemma child_cases: "0 < (j::nat) \<Longrightarrow> (j - 1) div 2 = i \<Longrightarrow> j = 2 * i + 1 \<or> j = 2 * i + 2"
  by arith

lemma bubbleDown_heap_ok:
  assumes "i < length h"
    and "\<forall>j<length h. 0 < j \<longrightarrow> (j - 1) div 2 \<noteq> i \<longrightarrow>
            priority (h ! ((j - 1) div 2)) \<le> priority (h ! j)"
    and "\<forall>j<length h. 0 < j \<longrightarrow> (j - 1) div 2 = i \<longrightarrow> 0 < i \<longrightarrow>
            priority (h ! ((i - 1) div 2)) \<le> priority (h ! j)"
  shows "heap_ok (bubbleDown h i)"
  using assms
proof (induction h i rule: bubbleDown.induct)
  case (1 h index)
  let ?l = "2 * index + 1" and ?r = "2 * index + 2"
  define s1 where "s1 = (if ?l < length h \<and> priority (h ! ?l) < priority (h ! index)
                      then ?l else index)"
  define s2 where "s2 = (if ?r < length h \<and> priority (h ! ?r) < priority (h ! s1)
                      then ?r else s1)"
  have unf: "bubbleDown h index = (if s2 \<noteq> index then bubbleDown (swap h index s2) s2 else h)"
    by (subst bubbleDown.simps) (simp add: Let_def s1_def s2_def)
  have s2l: "s2 < length h" using 1(2) by (auto simp: s1_def s2_def)
  have s2_le_idx: "priority (h ! s2) \<le> priority (h ! index)"
    by (auto simp: s1_def s2_def)
  have s2_le_child: "\<And>j. j < length h \<Longrightarrow> 0 < j \<Longrightarrow> (j - 1) div 2 = index \<Longrightarrow>
      priority (h ! s2) \<le> priority (h ! j)"
  proof -
    fix j assume j: "j < length h" "0 < j" "(j - 1) div 2 = index"
    from child_cases[OF j(2,3)] show "priority (h ! s2) \<le> priority (h ! j)"
      using j(1) by (auto simp: s1_def s2_def)
  qed
  show ?case
  proof (cases "s2 = index")
    case True
    have "heap_ok h"
      unfolding heap_ok_def
    proof (intro allI impI)
      fix j assume j: "j < length h" "0 < j"
      show "priority (h ! ((j - 1) div 2)) \<le> priority (h ! j)"
      proof (cases "(j - 1) div 2 = index")
        case True
        then show ?thesis using s2_le_child[OF j True] \<open>s2 = index\<close> by simp
      next
        case False
        then show ?thesis using 1(3) j by blast
      qed
    qed
    then show ?thesis using unf True by simp
  next
    case ne: False
    then have s2c: "s2 = ?l \<or> s2 = ?r" by (auto simp: s1_def s2_def split: if_splits)
    then have ps2: "(s2 - 1) div 2 = index" and s2pos: "0 < s2" and ilt: "index < s2" by auto
    have strict: "priority (h ! s2) < priority (h ! index)"
      using ne by (auto simp: s1_def s2_def split: if_splits)
    let ?h = "swap h index s2"
    have nth: "\<And>k. k < length h \<Longrightarrow>
        ?h ! k = (if k = s2 then h ! index else if k = index then h ! s2 else h ! k)"
      using nth_swap[OF 1(2) s2l] by simp
    have A: "\<forall>j<length ?h. 0 < j \<longrightarrow> (j - 1) div 2 \<noteq> s2 \<longrightarrow>
               priority (?h ! ((j - 1) div 2)) \<le> priority (?h ! j)"
    proof (intro allI impI)
      fix j assume j: "j < length ?h" "0 < j" "(j - 1) div 2 \<noteq> s2"
      then have jl: "j < length h" by simp
      have pjlt: "(j - 1) div 2 < j" using parent_lt[OF j(2)] .
      then have pjl: "(j - 1) div 2 < length h" using jl by simp
      show "priority (?h ! ((j - 1) div 2)) \<le> priority (?h ! j)"
      proof (cases "(j - 1) div 2 = index")
        case True
        have hp: "?h ! ((j - 1) div 2) = h ! s2" using nth[OF pjl] True ilt by simp
        show ?thesis
        proof (cases "j = s2")
          case True
          then show ?thesis using hp nth[OF jl] strict by simp
        next
          case False
          then have "?h ! j = h ! j" using nth[OF jl] True pjlt by auto
          then show ?thesis using hp s2_le_child[OF jl j(2) True] by simp
        qed
      next
        case pni: False
        then have jns: "j \<noteq> s2" using ps2 by auto
        have base: "priority (h ! ((j - 1) div 2)) \<le> priority (h ! j)"
          using 1(3) jl j(2) pni by blast
        have hp: "?h ! ((j - 1) div 2) = h ! ((j - 1) div 2)"
          using nth[OF pjl] pni j(3) by simp
        show ?thesis
        proof (cases "j = index")
          case True
          then have ipos: "0 < index" using j(2) by simp
          have "priority (h ! ((index - 1) div 2)) \<le> priority (h ! s2)"
            using 1(4) s2l s2pos ps2 ipos by blast
          then show ?thesis using hp nth[OF jl] True ilt by simp
        next
          case False
          then show ?thesis using hp nth[OF jl] jns base by simp
        qed
      qed
    qed
    have B: "\<forall>j<length ?h. 0 < j \<longrightarrow> (j - 1) div 2 = s2 \<longrightarrow> 0 < s2 \<longrightarrow>
               priority (?h ! ((s2 - 1) div 2)) \<le> priority (?h ! j)"
    proof (intro allI impI)
      fix j assume j: "j < length ?h" "0 < j" "(j - 1) div 2 = s2" "0 < s2"
      then have jl: "j < length h" by simp
      have "s2 < j" using parent_lt[OF j(2)] j(3) by simp
      then have hj: "?h ! j = h ! j" using nth[OF jl] ilt by simp
      have hi: "?h ! ((s2 - 1) div 2) = h ! s2" using ps2 nth[OF 1(2)] ilt by simp
      have "priority (h ! s2) \<le> priority (h ! j)"
        using 1(3) jl j(2) j(3) ilt by (metis less_irrefl)
      then show "priority (?h ! ((s2 - 1) div 2)) \<le> priority (?h ! j)"
        using hj hi by simp
    qed
    have "heap_ok (bubbleDown ?h s2)"
      using 1(1)[OF refl refl refl s1_def s2_def ne _ A B] s2l by simp
    then show ?thesis using unf ne by simp
  qed
qed

lemma heap_ok_root_min:
  assumes "heap_ok h" "i < length h"
  shows "priority (h ! 0) \<le> priority (h ! i)"
  using assms(2)
proof (induction i rule: less_induct)
  case (less i)
  show ?case
  proof (cases "i = 0")
    case True
    then show ?thesis by simp
  next
    case False
    then have pos: "0 < i" by simp
    have "priority (h ! 0) \<le> priority (h ! ((i - 1) div 2))"
      using less.IH[OF parent_lt[OF pos]] parent_lt[OF pos] less.prems by simp
    moreover have "priority (h ! ((i - 1) div 2)) \<le> priority (h ! i)"
      using assms(1) less.prems pos by (simp add: heap_ok_def)
    ultimately show ?thesis by simp
  qed
qed

lemma popNode_None: "popNode h = (None, h') \<longleftrightarrow> h = [] \<and> h' = []"
  by (auto simp: popNode_def Let_def)

lemma popNode_Some:
  assumes "heap_ok h" "popNode h = (Some n, h')"
  shows "heap_ok h' \<and> mset h = add_mset n (mset h') \<and> (\<forall>m \<in> set h. priority n \<le> priority m)"
proof -
  have ne: "h \<noteq> []" using assms(2) by (auto simp: popNode_def)
  then have n0: "n = h ! 0"
    using assms(2) by (cases h rule: rev_cases) (auto simp: popNode_def Let_def nth_append split: if_splits)
  have minp: "\<forall>m \<in> set h. priority n \<le> priority m"
    using heap_ok_root_min[OF assms(1)] n0 by (auto simp: in_set_conv_nth)
  show ?thesis
  proof (cases "length h = 1")
    case True
    then obtain x where "h = [x]" by (cases h) auto
    then show ?thesis using assms(2) minp by (auto simp: popNode_def heap_ok_def)
  next
    case False
    moreover have "length h \<noteq> 0" using ne by simp
    ultimately have len: "2 \<le> length h" by arith
    let ?h1 = "(butlast h)[0 := last h]"
    have h': "h' = bubbleDown ?h1 0"
      using assms(2) False ne by (simp add: popNode_def Let_def)
    have l1: "0 < length ?h1" using len by simp
    have nth1: "\<And>k. 0 < k \<Longrightarrow> k < length ?h1 \<Longrightarrow> ?h1 ! k = h ! k"
      by (simp add: nth_butlast)
    have A: "\<forall>j<length ?h1. 0 < j \<longrightarrow> (j - 1) div 2 \<noteq> 0 \<longrightarrow>
               priority (?h1 ! ((j - 1) div 2)) \<le> priority (?h1 ! j)"
    proof (intro allI impI)
      fix j assume j: "j < length ?h1" "0 < j" "(j - 1) div 2 \<noteq> 0"
      have pl: "(j - 1) div 2 < length ?h1" using parent_lt[OF j(2)] j(1) by simp
      have "priority (h ! ((j - 1) div 2)) \<le> priority (h ! j)"
        using assms(1) j by (simp add: heap_ok_def)
      then show "priority (?h1 ! ((j - 1) div 2)) \<le> priority (?h1 ! j)"
        using nth1[OF j(2) j(1)] nth1[OF _ pl] j(3) by simp
    qed
    have ok: "heap_ok h'"
      unfolding h' by (rule bubbleDown_heap_ok[OF l1 A]) simp
    have "mset h = add_mset (last h) (mset (butlast h))"
      using ne by (metis append_butlast_last_id mset.simps(2) mset_append union_mset_add_mset_right add.right_neutral mset.simps(1))
    moreover have "mset ?h1 = add_mset (last h) (mset (butlast h) - {#butlast h ! 0#})"
      using len by (simp add: mset_update)
    moreover have "butlast h ! 0 = n" using n0 len by (simp add: nth_butlast)
    moreover have "n \<in># mset (butlast h)"
      using \<open>butlast h ! 0 = n\<close> len by (metis l1 length_list_update nth_mem set_mset_mset)
    ultimately have "mset h = add_mset n (mset ?h1)"
      by simp
    then have "mset h = add_mset n (mset h')"
      unfolding h' using l1 by (simp add: mset_bubbleDown)
    then show ?thesis using ok minp by simp
  qed
qed

section \<open>Properties of the scheduler\<close>

text \<open>
  The action delay: 1000 without a speed component, \<open>Infinity\<close> for a speed of 0, 100 for a
  negative speed or a speed of 10 or more, and \<open>1000 / speed\<close> otherwise.
\<close>

lemma getActionDelay_cases:
  "getActionDelay (e\<lparr>components := (components e)\<lparr>speed := None\<rparr>\<rparr>) = Finite 1000"
  "getActionDelay (e\<lparr>components := (components e)\<lparr>speed := Some 0\<rparr>\<rparr>) = Infinity"
  "v < 0 \<or> 10 \<le> v \<Longrightarrow>
     getActionDelay (e\<lparr>components := (components e)\<lparr>speed := Some v\<rparr>\<rparr>) = Finite 100"
  "0 < v \<Longrightarrow> v < 10 \<Longrightarrow>
     getActionDelay (e\<lparr>components := (components e)\<lparr>speed := Some v\<rparr>\<rparr>) = Finite (1000 / v)"
proof -
  show "getActionDelay (e\<lparr>components := (components e)\<lparr>speed := None\<rparr>\<rparr>) = Finite 1000"
    by (simp add: getActionDelay_def)
  show "getActionDelay (e\<lparr>components := (components e)\<lparr>speed := Some 0\<rparr>\<rparr>) = Infinity"
    by (simp add: getActionDelay_def)
  show "getActionDelay (e\<lparr>components := (components e)\<lparr>speed := Some v\<rparr>\<rparr>) = Finite 100"
    if "v < 0 \<or> 10 \<le> v"
  proof -
    from that have nz: "v \<noteq> 0" by auto
    have "1000 / v \<le> 100"
    proof (cases "v < 0")
      case True
      then have "1000 / v \<le> 0" by (simp add: divide_le_0_iff)
      also have "(0::real) \<le> 100" by simp
      finally show ?thesis .
    next
      case False
      with that have "10 \<le> v" by simp
      then show ?thesis by (simp add: divide_le_eq)
    qed
    with nz show ?thesis by (simp add: getActionDelay_def max_def)
  qed
  show "getActionDelay (e\<lparr>components := (components e)\<lparr>speed := Some v\<rparr>\<rparr>) = Finite (1000 / v)"
    if "0 < v" "v < 10"
  proof -
    from that have "100 \<le> 1000 / v" by (simp add: le_divide_eq)
    then show ?thesis using that by (simp add: getActionDelay_def max_def)
  qed
qed

lemma pop_popNode: "pop h = (map_option item (fst (popNode h)), snd (popNode h))"
  by (simp add: pop_def popNode_def Let_def)

lemma getNextEntity_getNextNode:
  "getNextEntity g s = (map_option item (fst (getNextNode g s)), snd (getNextNode g s))"
proof (induction g s rule: getNextNode.induct)
  case (1 g s)
  show ?case
  proof (cases "queue s = []")
    case True
    then show ?thesis by (subst getNextEntity.simps, subst (1 2) getNextNode.simps) simp
  next
    case False
    obtain x q where pn: "popNode (queue s) = (x, q)" by (cases "popNode (queue s)")
    then have pp: "pop (queue s) = (map_option item x, q)" by (simp add: pop_popNode)
    show ?thesis
    proof (cases x)
      case None
      then show ?thesis
        using 1(1)[OF False pn[symmetric] None] False pn pp
        by (subst getNextEntity.simps, subst (1 2) getNextNode.simps) simp
    next
      case (Some n)
      show ?thesis
      proof (cases "active (store g (item n))")
        case True
        then show ?thesis using False pn pp Some
          by (subst getNextEntity.simps, subst (1 2) getNextNode.simps) simp
      next
        case na: False
        then show ?thesis
          using 1(2)[OF False pn[symmetric] Some na] False pn pp Some
          by (subst getNextEntity.simps, subst (1 2) getNextNode.simps) simp
      qed
    qed
  qed
qed

lemma getNextNode_active:
  "getNextNode g s = (Some n, s') \<Longrightarrow> active (store g (item n))"
proof (induction g s rule: getNextNode.induct)
  case (1 g s)
  from 1(3) have ne: "queue s \<noteq> []" by (subst (asm) getNextNode.simps) (auto split: if_splits)
  obtain x q where pn: "popNode (queue s) = (x, q)" by (cases "popNode (queue s)")
  show ?case
  proof (cases x)
    case None
    then show ?thesis using 1(1)[OF ne pn[symmetric] None] 1(3) ne pn
      by (subst (asm) getNextNode.simps) simp
  next
    case (Some m)
    show ?thesis
    proof (cases "active (store g (item m))")
      case True
      then show ?thesis using 1(3) ne pn Some
        by (subst (asm) getNextNode.simps) auto
    next
      case False
      then show ?thesis using 1(2)[OF ne pn[symmetric] Some False] 1(3) ne pn Some
        by (subst (asm) getNextNode.simps) simp
    qed
  qed
qed

lemma getNextNode_heap:
  "heap_ok (queue s) \<Longrightarrow> getNextNode g s = (Some n, s') \<Longrightarrow>
     n \<in> set (queue s) \<and> heap_ok (queue s') \<and> set (queue s') \<subseteq> set (queue s) \<and>
     (\<forall>m \<in> set (queue s'). priority n \<le> priority m)"
proof (induction g s rule: getNextNode.induct)
  case (1 g s)
  from 1(4) have ne: "queue s \<noteq> []" by (subst (asm) getNextNode.simps) (auto split: if_splits)
  obtain x q where pn: "popNode (queue s) = (x, q)" by (cases "popNode (queue s)")
  show ?case
  proof (cases x)
    case None
    then show ?thesis using pn ne popNode_None[of "queue s" q] by simp
  next
    case (Some m)
    from popNode_Some[OF 1(3) pn[unfolded Some]]
    have okq: "heap_ok q" and ms: "mset (queue s) = add_mset m (mset q)"
      and mn: "\<forall>k \<in> set (queue s). priority m \<le> priority k" by auto
    from ms have "set (queue s) = insert m (set q)"
      by (metis set_mset_add_mset_insert set_mset_mset)
    then have sub: "set q \<subseteq> set (queue s)" and m_in: "m \<in> set (queue s)"
      by auto
    show ?thesis
    proof (cases "active (store g (item m))")
      case True
      then have "n = m" "queue s' = q" using 1(4) ne pn Some
        by (subst (asm) getNextNode.simps, auto)+
      then show ?thesis using okq sub m_in mn by auto
    next
      case False
      have rec: "getNextNode g (s\<lparr>queue := q\<rparr>) = (Some n, s')"
        using 1(4) ne pn Some False by (subst (asm) getNextNode.simps) simp
      from 1(2)[OF ne pn[symmetric] Some False _ rec] okq
      have "n \<in> set q \<and> heap_ok (queue s') \<and> set (queue s') \<subseteq> set q \<and>
            (\<forall>m \<in> set (queue s'). priority n \<le> priority m)" by simp
      then show ?thesis using sub by auto
    qed
  qed
qed

lemma getNextNode_None:
  "getNextNode g s = (None, s') \<Longrightarrow> queue s' = []"
proof (induction g s rule: getNextNode.induct)
  case (1 g s)
  show ?case
  proof (cases "queue s = []")
    case True
    then show ?thesis using 1(3) by (subst (asm) getNextNode.simps) auto
  next
    case ne: False
    obtain x q where pn: "popNode (queue s) = (x, q)" by (cases "popNode (queue s)")
    show ?thesis
    proof (cases x)
      case None
      then show ?thesis using 1(1)[OF ne pn[symmetric] None] 1(3) ne pn
        by (subst (asm) getNextNode.simps) simp
    next
      case (Some m)
      show ?thesis
      proof (cases "active (store g (item m))")
        case True
        then show ?thesis using 1(3) ne pn Some
          by (subst (asm) getNextNode.simps) auto
      next
        case False
        then show ?thesis using 1(2)[OF ne pn[symmetric] Some False] 1(3) ne pn Some
          by (subst (asm) getNextNode.simps) simp
      qed
    qed
  qed
qed

lemma run_append:
  "run (as @ bs) c = (case run as c of (o1, c1) \<Rightarrow> (case run bs c1 of (o2, c2) \<Rightarrow> (o1 @ o2, c2)))"
  by (induction as arbitrary: c) (auto split: prod.splits option.splits)

lemma dispatched_append:
  "dispatched (as @ bs) c = dispatched as c @ dispatched bs (final as c)"
  by (simp add: dispatched_def final_def run_append split: prod.splits)

lemma schedule_queue_ok: "heap_ok (queue s) \<Longrightarrow> heap_ok (queue (snd (schedule g s e d)))"
  by (auto simp: schedule_def Let_def heap_ok_push split: option.splits)

lemma schedule_active: "active (store (fst (schedule g s e d)) r) = active (store g r)"
  by (auto simp: schedule_def Let_def setNextActionTime_def split: option.splits)

lemma removeEntity_active:
  "\<not> active (store g r) \<Longrightarrow> \<not> active (store (snd (removeEntity g i)) r)"
  by (auto simp: removeEntity_def Let_def deactivate_def split: option.splits)

lemma step_queue_no_schedule:
  "\<not> isSchedule a \<Longrightarrow> a \<noteq> GetNext \<Longrightarrow> step a (g, s) = (out, (g', s')) \<Longrightarrow> s' = s \<and> out = None"
  by (cases a) (auto simp: scheduler_removeEntity_def)

lemma step_no_getnext:
  "a \<noteq> GetNext \<Longrightarrow> heap_ok (queue s) \<Longrightarrow> step a (g, s) = (out, (g', s')) \<Longrightarrow>
     out = None \<and> heap_ok (queue s')"
  by (cases a) (auto simp: scheduler_removeEntity_def dest: schedule_queue_ok[of s g "Some _" _] 
       simp: prod_eq_iff)

lemma phase1:
  "GetNext \<notin> set as \<Longrightarrow> heap_ok (queue s) \<Longrightarrow>
     dispatched as (g, s) = [] \<and> heap_ok (queue (snd (final as (g, s))))"
proof (induction as arbitrary: g s)
  case Nil
  then show ?case by (simp add: dispatched_def final_def)
next
  case (Cons a as)
  obtain out g1 s1 where st: "step a (g, s) = (out, (g1, s1))" by (metis surj_pair)
  from Cons.prems have "a \<noteq> GetNext" by auto
  from step_no_getnext[OF this Cons.prems(2) st] have o: "out = None" and ok: "heap_ok (queue s1)" by auto
  from Cons.IH[OF _ ok, of g1] Cons.prems(1)
  have "dispatched as (g1, s1) = [] \<and> heap_ok (queue (snd (final as (g1, s1))))" by simp
  then show ?case using st o by (simp add: dispatched_def final_def split: prod.splits)
qed

lemma phase2:
  "heap_ok (queue s) \<Longrightarrow> \<forall>c\<in>set bs. \<not> isSchedule c \<Longrightarrow>
     sorted (map priority (dispatched bs (g, s))) \<and> set (dispatched bs (g, s)) \<subseteq> set (queue s)"
proof (induction bs arbitrary: g s)
  case Nil
  then show ?case by (simp add: dispatched_def)
next
  case (Cons a bs)
  have ns: "\<forall>c\<in>set bs. \<not> isSchedule c" and na: "\<not> isSchedule a" using Cons.prems(2) by auto
  show ?case
  proof (cases "a = GetNext")
    case True
    obtain x s1 where gn: "getNextNode g s = (x, s1)" by (cases "getNextNode g s")
    show ?thesis
    proof (cases x)
      case None
      from getNextNode_None[OF gn[unfolded None]] have e: "queue s1 = []" .
      then have ok1: "heap_ok (queue s1)" by (simp add: heap_ok_def)
      have eq: "dispatched (a # bs) (g, s) = dispatched bs (g, s1)"
        using True gn None by (simp add: dispatched_def split: prod.splits)
      show ?thesis unfolding eq using Cons.IH[OF ok1 ns, of g] e by auto
    next
      case (Some n)
      from getNextNode_heap[OF Cons.prems(1) gn[unfolded Some]]
      have n_in: "n \<in> set (queue s)" and ok1: "heap_ok (queue s1)"
        and sub: "set (queue s1) \<subseteq> set (queue s)"
        and mn: "\<forall>m \<in> set (queue s1). priority n \<le> priority m" by auto
      from Cons.IH[OF ok1 ns, of g]
      have so: "sorted (map priority (dispatched bs (g, s1)))"
        and ss: "set (dispatched bs (g, s1)) \<subseteq> set (queue s1)" by auto
      have eq: "dispatched (a # bs) (g, s) = n # dispatched bs (g, s1)"
        using True gn Some by (simp add: dispatched_def split: prod.splits)
      show ?thesis unfolding eq using so ss sub mn n_in by auto
    qed
  next
    case False
    obtain out g1 s1 where st: "step a (g, s) = (out, (g1, s1))" by (metis surj_pair)
    from step_queue_no_schedule[OF na False st] have s1: "s1 = s" and o: "out = None" by auto
    have eq: "dispatched (a # bs) (g, s) = dispatched bs (g1, s)"
      using st s1 o by (simp add: dispatched_def split: prod.splits)
    show ?thesis unfolding eq using Cons.IH[OF Cons.prems(1) ns, of g1] by simp
  qed
qed

lemma step_inactive:
  assumes "\<not> active (store g r)" "a \<noteq> Activate r" "step a (g, s) = (out, (g', s'))"
  shows "\<not> active (store g' r) \<and> (\<forall>n. out = Some n \<longrightarrow> item n \<noteq> r)"
proof (cases a)
  case (Schedule r' d)
  then show ?thesis using assms schedule_active[of g s "Some r'" d r]
    by (auto simp: prod_eq_iff)
next
  case GetNext
  then show ?thesis using assms getNextNode_active[of g s]
    by (auto split: prod.splits)
next
  case (Deactivate r')
  then show ?thesis using assms by (auto simp: deactivate_def split: if_splits)
next
  case (Activate r')
  then show ?thesis using assms by (auto simp: activate_def split: if_splits)
next
  case (RemoveEntity i)
  then show ?thesis using assms removeEntity_active[of g r i] by auto
next
  case ClearEntities
  then show ?thesis using assms by (auto simp: clearEntities_def)
qed

lemma inactive_not_dispatched:
  "\<not> active (store g r) \<Longrightarrow> Activate r \<notin> set cs \<Longrightarrow> r \<notin> item ` set (dispatched cs (g, s))"
proof (induction cs arbitrary: g s)
  case Nil
  then show ?case by (simp add: dispatched_def)
next
  case (Cons a cs)
  obtain out g1 s1 where st: "step a (g, s) = (out, (g1, s1))" by (metis surj_pair)
  from Cons.prems have "a \<noteq> Activate r" by auto
  from step_inactive[OF Cons.prems(1) this st]
  have ina: "\<not> active (store g1 r)" and o: "\<forall>n. out = Some n \<longrightarrow> item n \<noteq> r" by auto
  from Cons.IH[OF ina, of s1] Cons.prems(2)
  have "r \<notin> item ` set (dispatched cs (g1, s1))" by simp
  then show ?case using st o
    by (cases out) (auto simp: dispatched_def split: prod.splits)
qed

lemma getNextNode_spec:
  "heap_ok (queue s) \<Longrightarrow> getNextNode g s = (x, s') \<Longrightarrow>
     heap_ok (queue s') \<and>
     (case x of
        None \<Rightarrow> queue s' = [] \<and> filter_mset (\<lambda>m. active (store g (item m))) (mset (queue s)) = {#}
      | Some n \<Rightarrow> active (store g (item n)) \<and>
          filter_mset (\<lambda>m. active (store g (item m))) (mset (queue s)) =
            add_mset n (filter_mset (\<lambda>m. active (store g (item m))) (mset (queue s'))) \<and>
          (\<forall>m \<in> set (queue s'). priority n \<le> priority m) \<and>
          length (queue s') < length (queue s))"
proof (induction g s rule: getNextNode.induct)
  case (1 g s)
  show ?case
  proof (cases "queue s = []")
    case True
    then show ?thesis using 1(3,4) by (subst (asm) getNextNode.simps) auto
  next
    case ne: False
    obtain y q where pn: "popNode (queue s) = (y, q)" by (cases "popNode (queue s)")
    show ?thesis
    proof (cases y)
      case None
      then show ?thesis using pn ne popNode_None[of "queue s" q] by simp
    next
      case (Some m)
      from popNode_Some[OF 1(3) pn[unfolded Some]]
      have okq: "heap_ok q" and ms: "mset (queue s) = add_mset m (mset q)"
        and mn: "\<forall>k \<in> set (queue s). priority m \<le> priority k" by auto
      from ms have "set (queue s) = insert m (set q)"
        by (metis set_mset_add_mset_insert set_mset_mset)
      then have sub: "set q \<subseteq> set (queue s)" by auto
      from ms have "size (mset (queue s)) = Suc (size (mset q))" by simp
      then have lq: "length (queue s) = Suc (length q)" by simp
      show ?thesis
      proof (cases "active (store g (item m))")
        case True
        then have "x = Some m" "queue s' = q" using 1(4) ne pn Some
          by (subst (asm) getNextNode.simps, auto)+
        then show ?thesis using okq sub mn True ms lq by auto
      next
        case False
        have rec: "getNextNode g (s\<lparr>queue := q\<rparr>) = (x, s')"
          using 1(4) ne pn Some False by (subst (asm) getNextNode.simps) simp
        from 1(2)[OF ne pn[symmetric] Some False _ rec] okq
        have IH: "heap_ok (queue s') \<and>
          (case x of
             None \<Rightarrow> queue s' = [] \<and> filter_mset (\<lambda>m. active (store g (item m))) (mset q) = {#}
           | Some n \<Rightarrow> active (store g (item n)) \<and>
               filter_mset (\<lambda>m. active (store g (item m))) (mset q) =
                 add_mset n (filter_mset (\<lambda>m. active (store g (item m))) (mset (queue s'))) \<and>
               (\<forall>m \<in> set (queue s'). priority n \<le> priority m) \<and>
               length (queue s') < length q)" by (cases x) (auto simp: heap_ok_def)
        have "filter_mset (\<lambda>m. active (store g (item m))) (mset (queue s)) =
              filter_mset (\<lambda>m. active (store g (item m))) (mset q)"
          using ms False by simp
        then show ?thesis using IH lq by (cases x) (auto simp: heap_ok_def)
      qed
    qed
  qed
qed

lemma pops_spec:
  "heap_ok (queue s) \<Longrightarrow>
     map priority (dispatched (replicate k GetNext) (g, s)) =
       take k (sort (map priority (filter (\<lambda>m. active (store g (item m))) (queue s)))) \<and>
     mset (dispatched (replicate k GetNext) (g, s)) \<subseteq>#
       mset (filter (\<lambda>m. active (store g (item m))) (queue s)) \<and>
     (length (queue s) \<le> k \<longrightarrow>
        mset (dispatched (replicate k GetNext) (g, s)) =
          mset (filter (\<lambda>m. active (store g (item m))) (queue s)))"
proof (induction k arbitrary: s)
  case 0
  then show ?case by (simp add: dispatched_def)
next
  case (Suc k)
  let ?act = "\<lambda>m. active (store g (item m))"
  obtain x s1 where gn: "getNextNode g s = (x, s1)" by (cases "getNextNode g s")
  from getNextNode_spec[OF Suc.prems gn] have ok1: "heap_ok (queue s1)" by simp
  note IH = Suc.IH[OF ok1]
  show ?case
  proof (cases x)
    case None
    with getNextNode_spec[OF Suc.prems gn]
    have e: "queue s1 = []" and f: "filter_mset ?act (mset (queue s)) = {#}" by auto
    from f have fl: "filter ?act (queue s) = []"
      by (metis mset_filter mset_zero_iff)
    have d: "dispatched (GetNext # replicate k GetNext) (g, s) = dispatched (replicate k GetNext) (g, s1)"
      by (simp add: dispatched_def gn None split: prod.splits)
    from IH e have "dispatched (replicate k GetNext) (g, s1) = []" by simp
    then show ?thesis by (simp add: d fl)
  next
    case (Some n)
    with getNextNode_spec[OF Suc.prems gn]
    have an: "?act n"
      and f: "filter_mset ?act (mset (queue s)) = add_mset n (filter_mset ?act (mset (queue s1)))"
      and mn: "\<forall>m \<in> set (queue s1). priority n \<le> priority m"
      and len: "length (queue s1) < length (queue s)" by auto
    have d: "dispatched (GetNext # replicate k GetNext) (g, s) = n # dispatched (replicate k GetNext) (g, s1)"
      by (simp add: dispatched_def gn Some split: prod.splits)
    have fm: "mset (filter ?act (queue s)) = add_mset n (mset (filter ?act (queue s1)))"
      using f by simp
    have "sort (map priority (filter ?act (queue s))) =
          priority n # sort (map priority (filter ?act (queue s1)))"
    proof (rule properties_for_sort)
      show "mset (priority n # sort (map priority (filter ?act (queue s1)))) =
            mset (map priority (filter ?act (queue s)))"
        using fm by (metis mset.simps(2) mset_map mset_sort image_mset_add_mset)
      show "sorted (priority n # sort (map priority (filter ?act (queue s1))))"
        using mn by auto
    qed
    then have p1: "map priority (dispatched (replicate (Suc k) GetNext) (g, s)) =
       take (Suc k) (sort (map priority (filter ?act (queue s))))"
      using IH by (simp add: d)
    have p2: "mset (dispatched (replicate (Suc k) GetNext) (g, s)) \<subseteq># mset (filter ?act (queue s))"
      using IH fm by (simp add: d)
    have p3: "length (queue s) \<le> Suc k \<longrightarrow>
        mset (dispatched (replicate (Suc k) GetNext) (g, s)) = mset (filter ?act (queue s))"
      using IH fm len by (simp add: d)
    from p1 p2 p3 show ?thesis by blast
  qed
qed


lemma scheduledNode_cong:
  "speed (components (store g1 (fst rd))) = speed (components (store g (fst rd))) \<Longrightarrow>
     scheduledNode g1 c rd = scheduledNode g c rd"
  by (cases "snd rd") (simp_all add: scheduledNode_def getActionDelay_def)

lemma schedule_spec:
  "schedule g s (Some r) d = (g1, s1) \<Longrightarrow>
     mset (queue s1) =
       mset (queue s) + mset (map (scheduledNode g (currentTime s)) (filter (\<lambda>rd. active (store g (fst rd))) [(r, d)])) \<and>
     currentTime s1 = currentTime s \<and>
     (\<forall>r'. active (store g1 r') = active (store g r') \<and>
           speed (components (store g1 r')) = speed (components (store g r')))"
  by (auto simp: schedule_def Let_def mset_push scheduledNode_def setNextActionTime_def
      split: if_splits option.splits)

lemma schedules_spec:
  "final (map (case_prod Schedule) rts) (g, s) = (g1, s1) \<Longrightarrow>
     mset (queue s1) =
       mset (queue s) + mset (map (scheduledNode g (currentTime s)) (filter (\<lambda>rd. active (store g (fst rd))) rts)) \<and>
     currentTime s1 = currentTime s \<and>
     (\<forall>r'. active (store g1 r') = active (store g r') \<and>
           speed (components (store g1 r')) = speed (components (store g r')))"
proof (induction rts arbitrary: g s)
  case Nil
  then show ?case by (simp add: final_def)
next
  case (Cons rd rts)
  obtain r d where rd: "rd = (r, d)" by (cases rd)
  obtain g0 s0 where sc: "schedule g s (Some r) d = (g0, s0)" by (cases "schedule g s (Some r) d")
  from schedule_spec[OF sc]
  have q0: "mset (queue s0) =
       mset (queue s) + mset (map (scheduledNode g (currentTime s)) (filter (\<lambda>rd. active (store g (fst rd))) [(r, d)]))"
    and t0: "currentTime s0 = currentTime s"
    and a0: "\<And>r'. active (store g0 r') = active (store g r')"
    and v0: "\<And>r'. speed (components (store g0 r')) = speed (components (store g r'))" by auto
  have f: "final (map (case_prod Schedule) rts) (g0, s0) = (g1, s1)"
    using Cons.prems sc by (simp add: final_def rd split: prod.splits)
  from Cons.IH[OF f]
  have q1: "mset (queue s1) =
       mset (queue s0) + mset (map (scheduledNode g0 (currentTime s0)) (filter (\<lambda>rd. active (store g0 (fst rd))) rts))"
    and t1: "currentTime s1 = currentTime s0"
    and a1: "\<And>r'. active (store g1 r') = active (store g0 r')"
    and v1: "\<And>r'. speed (components (store g1 r')) = speed (components (store g0 r'))" by auto
  have sn: "scheduledNode g0 c x = scheduledNode g c x" for c x
    by (rule scheduledNode_cong) (rule v0)
  show ?case
    unfolding q1 q0 t1 t0 a1 a0 v1 v0 sn rd by simp
qed

lemma deactivates_spec:
  "run (map Deactivate ds) (g, s) = ([], (g\<lparr>store := (\<lambda>r. if r \<in> set ds then deactivate (store g r) else store g r)\<rparr>, s))"
proof (induction ds arbitrary: g)
  case Nil
  then show ?case by simp
next
  case (Cons d ds)
  have "(\<lambda>r. if r \<in> set ds then deactivate (((store g)(d := deactivate (store g d))) r)
              else ((store g)(d := deactivate (store g d))) r) =
        (\<lambda>r. if r \<in> set (d # ds) then deactivate (store g r) else store g r)"
    by (auto simp: deactivate_def fun_eq_iff)
  then show ?case by (simp add: Cons.IH cong: if_cong)
qed

lemma sort_mset_cong: "mset xs = mset ys \<Longrightarrow> sort xs = sort ys"
  by (rule properties_for_sort) simp_all

lemma schedule_then_pop:
  "map priority (dispatched (scheduleThenPop rts ds k) (g, newScheduler)) =
     take k (sort (map priority (expectedEntries g newScheduler rts ds))) \<and>
   mset (dispatched (scheduleThenPop rts ds k) (g, newScheduler)) \<subseteq>#
     mset (expectedEntries g newScheduler rts ds) \<and>
   (length rts \<le> k \<longrightarrow>
      mset (dispatched (scheduleThenPop rts ds k) (g, newScheduler)) =
        mset (expectedEntries g newScheduler rts ds))"
proof -
  let ?as = "map (case_prod Schedule) rts"
  define want where "want = filter (\<lambda>rd. active (store g (fst rd)) \<and> fst rd \<notin> set ds) rts"
  have ex: "expectedEntries g newScheduler rts ds = map (scheduledNode g (Finite 0)) want"
    by (simp add: expectedEntries_def want_def newScheduler_def)
  have ok0: "heap_ok (queue newScheduler)" by (simp add: newScheduler_def heap_ok_def)
  obtain g1 s1 where f: "final ?as (g, newScheduler) = (g1, s1)" by (metis surj_pair)
  have ng: "GetNext \<notin> set ?as" by auto
  from phase1[OF ng ok0, of g] f
  have d1: "dispatched ?as (g, newScheduler) = []" and ok1: "heap_ok (queue s1)" by auto
  from schedules_spec[OF f]
  have q1: "mset (queue s1) = mset (map (scheduledNode g (Finite 0)) (filter (\<lambda>rd. active (store g (fst rd))) rts))"
    and a1: "\<And>r'. active (store g1 r') = active (store g r')"
    by (auto simp: newScheduler_def)
  define g2 where "g2 = g1\<lparr>store := (\<lambda>r. if r \<in> set ds then deactivate (store g1 r) else store g1 r)\<rparr>"
  have d2: "dispatched (map Deactivate ds) (g1, s1) = []"
    and f2: "final (map Deactivate ds) (g1, s1) = (g2, s1)"
    by (simp_all add: dispatched_def final_def deactivates_spec g2_def)
  have a2: "active (store g2 r) = (active (store g r) \<and> r \<notin> set ds)" for r
    by (simp add: g2_def a1 deactivate_def)
  have eq: "dispatched (scheduleThenPop rts ds k) (g, newScheduler) =
            dispatched (replicate k GetNext) (g2, s1)"
    by (simp add: scheduleThenPop_def dispatched_append d1 d2 f f2)
  have "filter_mset (\<lambda>m. active (store g2 (item m))) (mset (queue s1)) = mset (map (scheduledNode g (Finite 0)) want)"
    unfolding q1 want_def a2
    by (induction rts) (auto simp: scheduledNode_def)
  then have fm: "mset (filter (\<lambda>m. active (store g2 (item m))) (queue s1)) = mset (map (scheduledNode g (Finite 0)) want)"
    by simp
  then have pr: "mset (map priority (filter (\<lambda>m. active (store g2 (item m))) (queue s1))) =
                 mset (map priority (map (scheduledNode g (Finite 0)) want))"
    by (metis mset_map)
  have "size (mset (queue s1)) \<le> length rts" unfolding q1
    by (simp add: order_trans[OF size_filter_mset_lesseq])
  then have len: "length (queue s1) \<le> length rts" by simp
  from pops_spec[OF ok1, of k g2] len show ?thesis
    unfolding eq ex fm sort_mset_cong[OF pr] by auto
qed


section \<open>Scheduler ordering and lazy skipping\<close>

text \<open>
  C1. Start from a fresh Scheduler and any World.

  Order: let a first phase of calls schedule entities with arbitrary delays (and deactivate,
  re-activate, remove or clear entities) and a second phase call \<open>getNextEntity\<close> repeatedly
  (entities may still be deactivated or removed between the calls, none is scheduled). Then
  the entities are returned in non-decreasing order of the timestamps under which they were
  scheduled.

  Lazy skipping: in any state, an entity that is inactive is not returned by any later
  \<open>getNextEntity\<close> call unless it is re-activated first. The dispatched heap nodes are those
  of \<open>getNextEntity\<close>: it returns the item of the node that \<open>getNextNode\<close> returns, with the
  same scheduler state.

  Nothing is lost: schedule the requests \<open>rts\<close> in order, deactivate the entities \<open>ds\<close> and
  call \<open>getNextEntity\<close> \<open>k\<close> times. The timestamps of the entities returned are the \<open>k\<close>
  smallest timestamps, in ascending order, of the requests for entities that were active when
  scheduled and are not among \<open>ds\<close> (all of them when there are fewer than \<open>k\<close>): a skipped
  entry is followed by the next entry of an active entity. Every returned entry is one of
  those requests, none is returned more often than it was requested, and after as many calls
  as there were requests each of them has been returned exactly once.
\<close>

theorem scheduler_ordering:
  assumes "GetNext \<notin> set as" and "\<forall>c\<in>set bs. \<not> isSchedule c"
  shows "sorted (map priority (dispatched (as @ bs) (g, newScheduler))) \<and>
         (\<not> active (store g' r) \<and> Activate r \<notin> set cs \<longrightarrow>
            r \<notin> item ` set (dispatched cs (g', s'))) \<and>
         getNextEntity g' s' = (map_option item (fst (getNextNode g' s')), snd (getNextNode g' s')) \<and>
         map priority (dispatched (scheduleThenPop rts ds k) (g, newScheduler)) =
           take k (sort (map priority (expectedEntries g newScheduler rts ds))) \<and>
         mset (dispatched (scheduleThenPop rts ds k) (g, newScheduler)) \<subseteq>#
           mset (expectedEntries g newScheduler rts ds) \<and>
         mset (dispatched (scheduleThenPop rts ds (length rts)) (g, newScheduler)) =
           mset (expectedEntries g newScheduler rts ds)"
proof -
  have ok0: "heap_ok (queue newScheduler)" by (simp add: newScheduler_def heap_ok_def)
  obtain g1 s1 where f: "final as (g, newScheduler) = (g1, s1)" by (metis surj_pair)
  from phase1[OF assms(1) ok0, of g] f
  have d1: "dispatched as (g, newScheduler) = []" and ok1: "heap_ok (queue s1)" by auto
  have "sorted (map priority (dispatched bs (g1, s1)))"
    using phase2[OF ok1 assms(2)] by simp
  then have p1: "sorted (map priority (dispatched (as @ bs) (g, newScheduler)))"
    by (simp add: dispatched_append d1 f)
  have p2: "\<not> active (store g' r) \<and> Activate r \<notin> set cs \<longrightarrow>
            r \<notin> item ` set (dispatched cs (g', s'))"
    using inactive_not_dispatched[of g' r cs s'] by blast
  note p3 = getNextEntity_getNextNode[of g' s']
  from schedule_then_pop[of rts ds k g]
  have p4: "map priority (dispatched (scheduleThenPop rts ds k) (g, newScheduler)) =
           take k (sort (map priority (expectedEntries g newScheduler rts ds)))"
    and p5: "mset (dispatched (scheduleThenPop rts ds k) (g, newScheduler)) \<subseteq>#
           mset (expectedEntries g newScheduler rts ds)" by simp_all
  from schedule_then_pop[of rts ds "length rts" g]
  have p6: "mset (dispatched (scheduleThenPop rts ds (length rts)) (g, newScheduler)) =
           mset (expectedEntries g newScheduler rts ds)" by simp
  show ?thesis by (intro conjI p1 p2 p3 p4 p5 p6)
qed

theorem scheduler_ordering_witness:
  "GetNext \<notin> set [Schedule 0 (Some (Finite 5)), Schedule 1 (Some (Finite 3)), Schedule 2 (Some (Finite 4)), Deactivate 1] \<and>
   \<not> isSchedule GetNext \<and>
   \<not> active (store (sampleGame\<lparr>store := (store sampleGame)(1 := deactivate (store sampleGame 1))\<rparr>) 1) \<and>
   Activate 1 \<notin> set [GetNext, Schedule 1 None, GetNext] \<and>
   sorted (map priority (dispatched
      ([Schedule 0 (Some (Finite 5)), Schedule 1 (Some (Finite 3)), Schedule 2 (Some (Finite 4)), Deactivate 1] @ [GetNext, GetNext, GetNext])
      (sampleGame, newScheduler))) \<and>
   1 \<notin> item ` set (dispatched [GetNext, Schedule 1 None, GetNext]
      (sampleGame\<lparr>store := (store sampleGame)(1 := deactivate (store sampleGame 1))\<rparr>,
       \<lparr>queue = [\<lparr>item = 1, priority = Finite 3\<rparr>, \<lparr>item = 0, priority = Finite 5\<rparr>], currentTime = Finite 0\<rparr>)) \<and>
   map priority (dispatched (scheduleThenPop [(0, Some (Finite 5)), (1, Some (Finite 3)), (2, Some (Finite 4))] [1] 3)
      (sampleGame, newScheduler)) = [Finite 4, Finite 5] \<and>
   mset (dispatched (scheduleThenPop [(0, Some (Finite 5)), (1, Some (Finite 3)), (2, Some (Finite 4))] [1] 3)
      (sampleGame, newScheduler)) = {#\<lparr>item = 2, priority = Finite 4\<rparr>, \<lparr>item = 0, priority = Finite 5\<rparr>#}"
proof -
  let ?g' = "sampleGame\<lparr>store := (store sampleGame)(1 := deactivate (store sampleGame 1))\<rparr>"
  have h1: "GetNext \<notin> set [Schedule 0 (Some (Finite 5)), Schedule 1 (Some (Finite 3)), Schedule 2 (Some (Finite 4)), Deactivate 1]"
    by simp
  have h2: "\<forall>c\<in>set [GetNext, GetNext, GetNext]. \<not> isSchedule c" by simp
  have h3: "\<not> active (store ?g' 1)" by (simp add: deactivate_def)
  have h4: "Activate 1 \<notin> set [GetNext, Schedule 1 None, GetNext]" by simp
  have e: "expectedEntries sampleGame newScheduler [(0, Some (Finite 5)), (1, Some (Finite 3)), (2, Some (Finite 4))] [1] =
             [\<lparr>item = 0, priority = Finite 5\<rparr>, \<lparr>item = 2, priority = Finite 4\<rparr>]"
    by (simp add: expectedEntries_def scheduledNode_def newScheduler_def
        sampleGame_def sampleStore_def newEntity_def)
  note th = scheduler_ordering[OF h1 h2, of sampleGame ?g' 1 "[GetNext, Schedule 1 None, GetNext]"
      "\<lparr>queue = [\<lparr>item = 1, priority = Finite 3\<rparr>, \<lparr>item = 0, priority = Finite 5\<rparr>], currentTime = Finite 0\<rparr>"
      "[(0, Some (Finite 5)), (1, Some (Finite 3)), (2, Some (Finite 4))]" "[1]" 3]
  from th have c1: "sorted (map priority (dispatched
      ([Schedule 0 (Some (Finite 5)), Schedule 1 (Some (Finite 3)), Schedule 2 (Some (Finite 4)), Deactivate 1] @ [GetNext, GetNext, GetNext])
      (sampleGame, newScheduler)))" by blast
  from th h3 h4 have c2: "1 \<notin> item ` set (dispatched [GetNext, Schedule 1 None, GetNext]
      (?g', \<lparr>queue = [\<lparr>item = 1, priority = Finite 3\<rparr>, \<lparr>item = 0, priority = Finite 5\<rparr>], currentTime = Finite 0\<rparr>))"
    by blast
  from th have "map priority (dispatched (scheduleThenPop [(0, Some (Finite 5)), (1, Some (Finite 3)), (2, Some (Finite 4))] [1] 3)
      (sampleGame, newScheduler)) =
      take 3 (sort (map priority (expectedEntries sampleGame newScheduler [(0, Some (Finite 5)), (1, Some (Finite 3)), (2, Some (Finite 4))] [1])))"
    by blast
  then have c3: "map priority (dispatched (scheduleThenPop [(0, Some (Finite 5)), (1, Some (Finite 3)), (2, Some (Finite 4))] [1] 3)
      (sampleGame, newScheduler)) = [Finite 4, Finite 5]"
    unfolding e by simp
  have l: "length [(0::nat, Some (Finite 5)), (1, Some (Finite 3)), (2, Some (Finite 4))] = 3" by simp
  from th[unfolded l] have "mset (dispatched (scheduleThenPop [(0, Some (Finite 5)), (1, Some (Finite 3)), (2, Some (Finite 4))] [1] 3)
      (sampleGame, newScheduler)) =
      mset (expectedEntries sampleGame newScheduler [(0, Some (Finite 5)), (1, Some (Finite 3)), (2, Some (Finite 4))] [1])"
    by blast
  then have c4: "mset (dispatched (scheduleThenPop [(0, Some (Finite 5)), (1, Some (Finite 3)), (2, Some (Finite 4))] [1] 3)
      (sampleGame, newScheduler)) = {#\<lparr>item = 2, priority = Finite 4\<rparr>, \<lparr>item = 0, priority = Finite 5\<rparr>#}"
    unfolding e by (simp add: add_mset_commute)
  have h2': "\<not> isSchedule GetNext" by simp
  show ?thesis by (intro conjI h1 h2' h3 h4 c1 c2 c3 c4)
qed

text \<open>
  The run of the witness: entity 1 is scheduled first in time (3) and deactivated before the
  first \<open>getNextEntity\<close>; the calls return entity 2 (scheduled at 4), then entity 0 (at 5),
  then nothing.
\<close>

lemma scheduler_ordering_example: "map item (dispatched
      ([Schedule 0 (Some (Finite 5)), Schedule 1 (Some (Finite 3)), Schedule 2 (Some (Finite 4)), Deactivate 1] @ [GetNext, GetNext, GetNext])
      (sampleGame, newScheduler)) = [2, 0]"
  by (simp add: dispatched_def schedule_def sampleGame_def sampleStore_def newEntity_def newScheduler_def
      push_def bubbleUp.simps bubbleDown.simps popNode_def getNextNode.simps swap_def Let_def
      setNextActionTime_def deactivate_def getNextActionTime_def)

text \<open>
  An entity of speed 0 scheduled with its own delay gets the timestamp \<open>Infinity\<close> and is
  returned after every entity with a finite timestamp.
\<close>

lemma infinite_delay_last:
  "map item (dispatched [Schedule 1 None, Schedule 0 (Some (Finite 7000)), GetNext, GetNext]
     (sampleGame\<lparr>store := (store sampleGame)
        (1 := (store sampleGame 1)\<lparr>components := (components (store sampleGame 1))\<lparr>speed := Some 0\<rparr>\<rparr>)\<rparr>,
      newScheduler)) = [0, 1]"
  by (simp add: dispatched_def schedule_def sampleGame_def sampleStore_def newEntity_def newScheduler_def
      push_def bubbleUp.simps bubbleDown.simps popNode_def getNextNode.simps swap_def Let_def
      setNextActionTime_def deactivate_def getNextActionTime_def getActionDelay_def emptyComps_def)

section \<open>Removal from the World and the scheduler\<close>




section \<open>Skill cap\<close>

lemma levelUpLoop_level:
  "levelUpLoop sk m b = (sk', b') \<Longrightarrow> level sk \<le> level sk' \<and> level sk' \<le> max (level sk) m"
proof (induction sk m b rule: levelUpLoop.induct)
  case (1 sk m b)
  show ?case
  proof (cases "experience sk \<ge> maxExperience sk \<and> level sk < m")
    case True
    let ?sk1 = "sk\<lparr>experience := experience sk - maxExperience sk, level := level sk + 1,
                    maxExperience := of_int \<lfloor>maxExperience sk * (11 / 10)\<rfloor>\<rparr>"
    have "levelUpLoop ?sk1 m True = (sk', b')"
      using 1(2) True by (subst (asm) levelUpLoop.simps) simp
    from 1(1)[OF True this] show ?thesis using True by auto
  next
    case False
    then have "sk' = sk" using 1(2) by (subst (asm) levelUpLoop.simps) auto
    then show ?thesis by simp
  qed
qed

lemma gainSkillExperience_level:
  assumes "skillLevel e n = Some l"
  shows "\<exists>l'. skillLevel (snd (gainSkillExperience e n' xp)) n = Some l' \<and> l \<le> l' \<and>
              l' \<le> max l (maxSkillLevelOf e)"
proof -
  obtain sks where sks: "skills (components e) = Some sks"
    using assms by (auto simp: skillLevel_def split: option.splits)
  then obtain sk where sk: "sks n = Some sk" "level sk = l"
    using assms by (auto simp: skillLevel_def)
  show ?thesis
  proof (cases "sks n'")
    case None
    then show ?thesis using sks assms by (simp add: gainSkillExperience_def)
  next
    case (Some skn)
    show ?thesis
    proof (cases "level skn \<ge> maxSkillLevelOf e")
      case True
      then show ?thesis using sks Some assms by (simp add: gainSkillExperience_def)
    next
      case False
      obtain sk2 lu where loop:
        "levelUpLoop (skn\<lparr>experience := experience skn + xp\<rparr>) (maxSkillLevelOf e) False = (sk2, lu)"
        by (metis surj_pair)
      have res: "snd (gainSkillExperience e n' xp) =
                 e\<lparr>components := (components e)\<lparr>skills := Some (sks(n' \<mapsto> sk2))\<rparr>\<rparr>"
        using sks Some False loop by (simp add: gainSkillExperience_def Let_def)
      from levelUpLoop_level[OF loop]
      have lv: "level skn \<le> level sk2" "level sk2 \<le> max (level skn) (maxSkillLevelOf e)" by auto
      show ?thesis
      proof (cases "n = n'")
        case True
        then have "skn = sk" using Some sk by simp
        then show ?thesis using res True lv sk by (simp add: skillLevel_def)
      next
        case False
        then show ?thesis using res sk by (simp add: skillLevel_def)
      qed
    qed
  qed
qed

lemma gainSkillExperience_cap [simp]:
  "maxSkillLevelOf (snd (gainSkillExperience e n xp)) = maxSkillLevelOf e"
  by (auto simp: gainSkillExperience_def maxSkillLevelOf_def Let_def split: option.splits prod.splits)

lemma gainAll_level:
  "skillLevel e n = Some l \<Longrightarrow>
     \<exists>l'. skillLevel (gainAll e cs) n = Some l' \<and> l \<le> l' \<and> l' \<le> max l (maxSkillLevelOf e)"
proof (induction cs arbitrary: e l)
  case Nil
  then show ?case by simp
next
  case (Cons c cs)
  obtain n' xp where c: "c = (n', xp)" by (cases c)
  from gainSkillExperience_level[OF Cons.prems, of n' xp]
  obtain l1 where l1: "skillLevel (snd (gainSkillExperience e n' xp)) n = Some l1"
    "l \<le> l1" "l1 \<le> max l (maxSkillLevelOf e)" by auto
  from Cons.IH[OF l1(1)]
  obtain l2 where l2: "skillLevel (gainAll (snd (gainSkillExperience e n' xp)) cs) n = Some l2"
    "l1 \<le> l2" "l2 \<le> max l1 (maxSkillLevelOf e)" by auto
  show ?case using c l1 l2 by auto
qed

lemma gainSkillExperience_at_cap:
  "skillLevel e n = Some l \<Longrightarrow> maxSkillLevelOf e \<le> l \<Longrightarrow> gainSkillExperience e n xp = (False, e)"
  by (auto simp: gainSkillExperience_def skillLevel_def split: option.splits)

text \<open>
  C7. For an entity that has the skill \<open>n\<close> at level \<open>l\<close>: after any sequence of
  \<open>gainSkillExperience\<close> calls (on any skills, with any amounts) the level of \<open>n\<close> has not
  decreased and is at most the cap, or still \<open>l\<close> if \<open>l\<close> was above the cap already; when the
  skill is at or above the cap a call returns false and changes nothing. The cap is the value
  of the entity's level component times 5 (and 5 for an entity without a level component).
\<close>

theorem skill_level_cap:
  assumes "skillLevel e n = Some l"
  shows "(\<exists>l'. skillLevel (gainAll e cs) n = Some l' \<and> l \<le> l' \<and> l' \<le> max l (maxSkillLevelOf e)) \<and>
         (maxSkillLevelOf e \<le> l \<longrightarrow> gainSkillExperience e n xp = (False, e)) \<and>
         (\<forall>lc. level_comp (components e) = Some lc \<longrightarrow> maxSkillLevelOf e = lvalue lc * 5)"
  using gainAll_level[OF assms, of cs] gainSkillExperience_at_cap[OF assms, of xp]
  by (simp add: maxSkillLevelOf_def)

theorem skill_level_cap_witness:
  "skillLevel sampleFighter ''dodge'' = Some 0 \<and>
   maxSkillLevelOf sampleFighter = 5 \<and>
   skillLevel (gainAll sampleFighter [(''dodge'', 100), (''dodge'', 500)]) ''dodge'' = Some 5 \<and>
   skillLevel (gainAll sampleFighter [(''dodge'', 100), (''dodge'', 500)]) ''block'' = Some 0 \<and>
   gainSkillExperience (gainAll sampleFighter [(''dodge'', 100), (''dodge'', 500)]) ''dodge'' 3 =
     (False, gainAll sampleFighter [(''dodge'', 100), (''dodge'', 500)])"
proof -
  let ?e = "gainAll sampleFighter [(''dodge'', 100), (''dodge'', 500)]"
  have l0: "skillLevel sampleFighter ''dodge'' = Some 0"
    by (simp add: sampleFighter_def initializeEntity_def skillLevel_def skillNames_def)
  have cap: "maxSkillLevelOf sampleFighter = 5"
    by (simp add: sampleFighter_def initializeEntity_def maxSkillLevelOf_def newEntity_def
        emptyComps_def)
  have l5: "skillLevel ?e ''dodge'' = Some 5"
    by (simp add: sampleFighter_def initializeEntity_def skillLevel_def skillNames_def
        gainSkillExperience_def maxSkillLevelOf_def newEntity_def emptyComps_def
        levelUpLoop.simps Let_def)
  have b0: "skillLevel ?e ''block'' = Some 0"
    by (simp add: sampleFighter_def initializeEntity_def skillLevel_def skillNames_def
        gainSkillExperience_def maxSkillLevelOf_def newEntity_def emptyComps_def
        levelUpLoop.simps Let_def)
  have cap5: "maxSkillLevelOf ?e = 5" using cap by simp
  have "gainSkillExperience ?e ''dodge'' 3 = (False, ?e)"
    using skill_level_cap[OF l5, of "[]" 3] cap5 by simp
  then show ?thesis using l0 cap l5 b0 by simp
qed

section \<open>Frame properties of the combat operations\<close>

lemma gainSkillExperience_frame:
  "snd (gainSkillExperience e n xp) = e\<lparr>components := (components e)\<lparr>skills := skills (components (snd (gainSkillExperience e n xp)))\<rparr>\<rparr>"
  by (auto simp: gainSkillExperience_def Let_def split: option.splits prod.splits)

lemma gainSkillExperience_other [simp]:
  "health (components (snd (gainSkillExperience e n xp))) = health (components e)"
  "stats (components (snd (gainSkillExperience e n xp))) = stats (components e)"
  "equipment (components (snd (gainSkillExperience e n xp))) = equipment (components e)"
  "level_comp (components (snd (gainSkillExperience e n xp))) = level_comp (components e)"
  "lastAttack (components (snd (gainSkillExperience e n xp))) = lastAttack (components e)"
  "eid (snd (gainSkillExperience e n xp)) = eid e"
  "etype (snd (gainSkillExperience e n xp)) = etype e"
  "active (snd (gainSkillExperience e n xp)) = active e"
  by (subst gainSkillExperience_frame, simp)+

lemma applyDamage_other [simp]:
  "stats (components (applyDamage e d)) = stats (components e)"
  "equipment (components (applyDamage e d)) = equipment (components e)"
  "skills (components (applyDamage e d)) = skills (components e)"
  "level_comp (components (applyDamage e d)) = level_comp (components e)"
  "lastAttack (components (applyDamage e d)) = lastAttack (components e)"
  "eid (applyDamage e d) = eid e"
  "etype (applyDamage e d) = etype e"
  "active (applyDamage e d) = active e"
  by (auto simp: applyDamage_def addHitEffect_def split: option.splits)

lemma applyDamage_health:
  "health (components e) = Some h \<Longrightarrow>
     health (components (applyDamage e d)) = Some (h\<lparr>current := max 0 (current h - d)\<rparr>)"
  by (simp add: applyDamage_def addHitEffect_def)

lemma performLevelUp_other [simp]:
  "lastAttack (components (performLevelUp e picks)) = lastAttack (components e)"
  "skills (components (performLevelUp e picks)) = skills (components e)"
  "equipment (components (performLevelUp e picks)) = equipment (components e)"
  "eid (performLevelUp e picks) = eid e"
  "etype (performLevelUp e picks) = etype e"
  "active (performLevelUp e picks) = active e"
  by (auto simp: performLevelUp_def increaseStats_def Let_def split: option.splits)

lemma performLevelUp_experience:
  "level_comp (components e) = Some lc \<Longrightarrow>
     \<exists>lc'. level_comp (components (performLevelUp e picks)) = Some lc' \<and> lexperience lc' = lexperience lc"
  by (auto simp: performLevelUp_def increaseStats_def Let_def split: option.splits)

lemma addExperience_other:
  "addExperience e xp picks = Inr e' \<Longrightarrow>
     lastAttack (components e') = lastAttack (components e) \<and>
     skills (components e') = skills (components e) \<and>
     equipment (components e') = equipment (components e) \<and>
     eid e' = eid e \<and> etype e' = etype e \<and> active e' = active e"
  by (auto simp: addExperience_def checkLevelUp_def Let_def split: option.splits if_splits)

lemma addExperience_experience:
  "level_comp (components e) = Some lc \<Longrightarrow>
     \<exists>e' lc'. addExperience e xp picks = Inr e' \<and> level_comp (components e') = Some lc' \<and>
        lexperience lc' = lexperience lc + xp"
proof -
  assume lc: "level_comp (components e) = Some lc"
  let ?e1 = "e\<lparr>components := (components e)\<lparr>level_comp := Some (lc\<lparr>lexperience := lexperience lc + xp\<rparr>)\<rparr>\<rparr>"
  have a: "addExperience e xp picks = Inr (snd (checkLevelUp ?e1 picks))"
    using lc by (simp add: addExperience_def Let_def)
  have l1: "level_comp (components ?e1) = Some (lc\<lparr>lexperience := lexperience lc + xp\<rparr>)" by simp
  from performLevelUp_experience[OF l1, of picks]
  have "\<exists>lc'. level_comp (components (snd (checkLevelUp ?e1 picks))) = Some lc' \<and>
          lexperience lc' = lexperience lc + xp"
    by (auto simp: checkLevelUp_def Let_def)
  then show ?thesis using a by auto
qed

lemma createSwingAnimation_frame:
  "x < nextRef g \<Longrightarrow> store (createSwingAnimation g a t sid) x = store g x"
  "nextRef (createSwingAnimation g a t sid) = nextRef g + 1"
  "skillsSystem (createSwingAnimation g a t sid) = skillsSystem g"
  "characterProgress (createSwingAnimation g a t sid) = characterProgress g"
  "player (createSwingAnimation g a t sid) = player g"
  by (simp_all add: createSwingAnimation_def addEntity_def Let_def newEntity_def)

lemma createCorpse_frame:
  "x < nextRef g \<Longrightarrow> store (createCorpse g m) x = store g x"
  "nextRef (createCorpse g m) = nextRef g + 1"
  "skillsSystem (createCorpse g m) = skillsSystem g"
  "characterProgress (createCorpse g m) = characterProgress g"
  "player (createCorpse g m) = player g"
  by (auto simp: createCorpse_def addEntity_def Let_def newEntity_def split: option.splits)

lemma giveExperience_frame:
  assumes "giveExperience g p m picks = Inr g'"
  shows "x \<noteq> p \<Longrightarrow> store g' x = store g x"
    and "nextRef g' = nextRef g"
    and "skillsSystem g' = skillsSystem g"
    and "characterProgress g' = characterProgress g"
    and "player g' = player g"
    and "entities g' = entities g"
    and "lastAttack (components (store g' x)) = lastAttack (components (store g x))"
    and "eid (store g' x) = eid (store g x)"
    and "etype (store g' x) = etype (store g x)"
    and "active (store g' x) = active (store g x)"
  using assms
  by (auto simp: giveExperience_def Let_def split: if_splits option.splits sum.splits
      dest: addExperience_other)

lemma removeEntity_frame:
  "components (store (snd (removeEntity g i)) x) = components (store g x)"
  "eid (store (snd (removeEntity g i)) x) = eid (store g x)"
  "etype (store (snd (removeEntity g i)) x) = etype (store g x)"
  "nextRef (snd (removeEntity g i)) = nextRef g"
  "skillsSystem (snd (removeEntity g i)) = skillsSystem g"
  "characterProgress (snd (removeEntity g i)) = characterProgress g"
  by (auto simp: removeEntity_def Let_def deactivate_def split: option.splits)

lemma handleDeath_frame:
  assumes "handleDeath g t picks = Inr g'"
  shows "nextRef g \<le> nextRef g'"
    and "skillsSystem g' = skillsSystem g"
    and "characterProgress g' = characterProgress g"
    and "x < nextRef g \<Longrightarrow> lastAttack (components (store g' x)) = lastAttack (components (store g x))"
    and "x < nextRef g \<Longrightarrow> eid (store g' x) = eid (store g x)"
    and "x < nextRef g \<Longrightarrow> (player g = Some x \<longrightarrow> etype (store g t) \<noteq> ''monster'') \<Longrightarrow>
           components (store g' x) = components (store g x)"
proof -
  obtain g1 where g1: "(if etype (store g t) = ''monster'' \<and> player g \<noteq> None
            then giveExperience g (the (player g)) t picks else Inr g) = Inr g1"
    using assms by (auto simp: handleDeath_def split: sum.splits)
  define g2 where "g2 = (if etype (store g1 t) = ''monster'' then createCorpse g1 t else g1)"
  have g': "g' = snd (removeEntity g2 (eid (store g2 t)))"
    using assms g1 by (simp add: handleDeath_def g2_def Let_def)
  have n1: "nextRef g1 = nextRef g" and f1: "skillsSystem g1 = skillsSystem g"
    "characterProgress g1 = characterProgress g"
    using g1 giveExperience_frame(2,3,4)[of g "the (player g)" t picks g1]
    by (auto split: if_splits)
  have la1: "lastAttack (components (store g1 x)) = lastAttack (components (store g x))"
    "eid (store g1 x) = eid (store g x)" for x
    using g1 giveExperience_frame(7,8)[of g "the (player g)" t picks g1 x]
    by (auto split: if_splits)
  have c1: "components (store g1 x) = components (store g x)"
    if "player g = Some x \<longrightarrow> etype (store g t) \<noteq> ''monster''" for x
    using g1 that giveExperience_frame(1)[of g "the (player g)" t picks g1 x]
    by (auto split: if_splits)
  have s2: "store g2 x = store g1 x" if "x < nextRef g" for x
    using that n1 by (simp add: g2_def createCorpse_frame)
  show "nextRef g \<le> nextRef g'"
    by (simp add: g' removeEntity_frame g2_def createCorpse_frame n1)
  show "skillsSystem g' = skillsSystem g" "characterProgress g' = characterProgress g"
    by (simp_all add: g' removeEntity_frame g2_def createCorpse_frame f1)
  show "x < nextRef g \<Longrightarrow> lastAttack (components (store g' x)) = lastAttack (components (store g x))"
    by (simp add: g' removeEntity_frame s2 la1)
  show "x < nextRef g \<Longrightarrow> eid (store g' x) = eid (store g x)"
    by (simp add: g' removeEntity_frame s2 la1)
  show "x < nextRef g \<Longrightarrow> (player g = Some x \<longrightarrow> etype (store g t) \<noteq> ''monster'') \<Longrightarrow>
           components (store g' x) = components (store g x)"
    by (simp add: g' removeEntity_frame s2 c1)
qed

lemma gainWeaponSkillExperience_frame:
  "x \<noteq> a \<Longrightarrow> store (gainWeaponSkillExperience g a) x = store g x"
  "lastAttack (components (store (gainWeaponSkillExperience g a) x)) = lastAttack (components (store g x))"
  "health (components (store (gainWeaponSkillExperience g a) x)) = health (components (store g x))"
  "nextRef (gainWeaponSkillExperience g a) = nextRef g"
  by (auto simp: gainWeaponSkillExperience_def Let_def split: option.splits)

lemma getSkillBonuses_cong:
  assumes "equipment (components e') = equipment (components e)"
    and "skills (components e') = skills (components e)"
  shows "getSkillBonuses e' w = getSkillBonuses e w"
  unfolding getSkillBonuses_def assms ..

lemma equipment_calculateDamage_cong:
  assumes "stats (components e') = stats (components e)"
    and "equipment (components e') = equipment (components e)"
    and "skills (components e') = skills (components e)"
    and "skillsSystem g' = skillsSystem g"
  shows "equipment_calculateDamage g' e' = equipment_calculateDamage g e"
  unfolding equipment_calculateDamage_def assms getSkillBonuses_cong[OF assms(2,3)] ..

lemma equipment_calculateDefense_cong:
  assumes "stats (components e') = stats (components e)"
    and "equipment (components e') = equipment (components e)"
    and "skills (components e') = skills (components e)"
    and "skillsSystem g' = skillsSystem g"
  shows "equipment_calculateDefense g' e' = equipment_calculateDefense g e"
  unfolding equipment_calculateDefense_def assms getSkillBonuses_cong[OF assms(2,3)] ..

lemma calculateDodge_cong:
  assumes "stats (components e') = stats (components e)"
    and "equipment (components e') = equipment (components e)"
    and "skills (components e') = skills (components e)"
    and "skillsSystem g' = skillsSystem g"
  shows "calculateDodge g' e' = calculateDodge g e"
  unfolding calculateDodge_def assms getSkillBonuses_cong[OF assms(2,3)] ..

lemma checkBlock_cong:
  assumes "equipment (components e') = equipment (components e)"
    and "skills (components e') = skills (components e)"
    and "skillsSystem g' = skillsSystem g"
  shows "checkBlock g' e' r = checkBlock g e r"
  unfolding checkBlock_def assms getSkillBonuses_cong[OF assms(1,2)] ..

lemma setLastAttack_simps [simp]:
  "x \<noteq> a \<Longrightarrow> store (setLastAttack g a now) x = store g x"
  "lastAttack (components (store (setLastAttack g a now) a)) = Some now"
  "stats (components (store (setLastAttack g a now) x)) = stats (components (store g x))"
  "equipment (components (store (setLastAttack g a now) x)) = equipment (components (store g x))"
  "skills (components (store (setLastAttack g a now) x)) = skills (components (store g x))"
  "health (components (store (setLastAttack g a now) x)) = health (components (store g x))"
  "eid (store (setLastAttack g a now) x) = eid (store g x)"
  "etype (store (setLastAttack g a now) x) = etype (store g x)"
  "nextRef (setLastAttack g a now) = nextRef g"
  "skillsSystem (setLastAttack g a now) = skillsSystem g"
  "characterProgress (setLastAttack g a now) = characterProgress g"
  "player (setLastAttack g a now) = player g"
  by (simp_all add: setLastAttack_def)

lemma canAttack_distinct: "canAttack (store g a) (store g t) \<Longrightarrow> a \<noteq> t"
  by (auto simp: canAttack_def split: if_splits)

lemma attackTarget_rejected:
  "\<not> canAttack (store g a) (store g t) \<Longrightarrow> attackTarget g a t now rnd = Inr (False, g)"
  by (simp add: attackTarget_def)

lemma attackTarget_cooldown:
  "now - (case lastAttack (components (store g a)) of Some tm \<Rightarrow> tm | None \<Rightarrow> 0)
      < 6400 / swingSpeed (equipment_calculateDamage g (store g a)) \<Longrightarrow>
   attackTarget g a t now rnd = Inr (False, g)"
  by (simp add: attackTarget_def Let_def)

lemma attackTarget_accepted:
  assumes "canAttack (store g a) (store g t)"
    and "\<not> now - (case lastAttack (components (store g a)) of Some tm \<Rightarrow> tm | None \<Rightarrow> 0)
      < 6400 / swingSpeed (equipment_calculateDamage g (store g a))"
  shows "attackTarget g a t now rnd =
     (if rollToHit g (store g a) (store g t) (hitRoll rnd)
      then attackTarget_hit (setLastAttack g a now) a t (calculateDamage g (store g a) (store g t)) rnd
      else attackTarget_miss (setLastAttack g a now) a t rnd)"
proof -
  have ne: "a \<noteq> t" using canAttack_distinct[OF assms(1)] .
  have d: "calculateDamage (setLastAttack g a now) (store (setLastAttack g a now) a)
             (store (setLastAttack g a now) t) = calculateDamage g (store g a) (store g t)"
    using ne by (simp add: calculateDamage_def calculateDefense_def
        equipment_calculateDamage_cong[of "store (setLastAttack g a now) a" "store g a" "setLastAttack g a now" g]
        equipment_calculateDefense_cong[of "store g t" "store g t" "setLastAttack g a now" g])
  have dg: "calculateDodge (setLastAttack g a now) (store g t) = calculateDodge g (store g t)"
    by (rule calculateDodge_cong) simp_all
  have r: "rollToHit (setLastAttack g a now) (store (setLastAttack g a now) a)
             (store (setLastAttack g a now) t) (hitRoll rnd) =
           rollToHit g (store g a) (store g t) (hitRoll rnd)"
    using ne by (simp add: rollToHit_def dg cong: option.case_cong)
  show ?thesis using assms by (simp add: attackTarget_def Let_def d r)
qed

lemma attackTarget_cases:
  assumes "attackTarget g a t now rnd = Inr (res, g')"
  obtains (rejected) "res = False" "g' = g"
    | (hit) "canAttack (store g a) (store g t)"
        "\<not> now - (case lastAttack (components (store g a)) of Some tm \<Rightarrow> tm | None \<Rightarrow> 0)
             < 6400 / swingSpeed (equipment_calculateDamage g (store g a))"
        "rollToHit g (store g a) (store g t) (hitRoll rnd)"
        "attackTarget_hit (setLastAttack g a now) a t (calculateDamage g (store g a) (store g t)) rnd = Inr (res, g')"
    | (miss) "canAttack (store g a) (store g t)"
        "\<not> now - (case lastAttack (components (store g a)) of Some tm \<Rightarrow> tm | None \<Rightarrow> 0)
             < 6400 / swingSpeed (equipment_calculateDamage g (store g a))"
        "\<not> rollToHit g (store g a) (store g t) (hitRoll rnd)"
        "attackTarget_miss (setLastAttack g a now) a t rnd = Inr (res, g')"
proof (cases "canAttack (store g a) (store g t)")
  case False
  then show ?thesis using assms rejected by (simp add: attackTarget_rejected)
next
  case ca: True
  show ?thesis
  proof (cases "now - (case lastAttack (components (store g a)) of Some tm \<Rightarrow> tm | None \<Rightarrow> 0)
      < 6400 / swingSpeed (equipment_calculateDamage g (store g a))")
    case True
    then show ?thesis using assms rejected by (simp add: attackTarget_cooldown)
  next
    case False
    from attackTarget_accepted[OF ca False, of rnd] assms
    show ?thesis using hit miss ca False by (cases "rollToHit g (store g a) (store g t) (hitRoll rnd)") auto
  qed
qed


lemma attackTarget_miss_result:
  "attackTarget_miss g a t rnd = Inr (res, g') \<Longrightarrow> \<not> res"
  by (auto simp: attackTarget_miss_def Let_def)

lemma attackTarget_hit_health:
  assumes "attackTarget_hit g a t dmg rnd = Inr (res, g')"
    and "t < nextRef g"
    and "health (components (store g t)) = Some h"
    and "player g = Some t \<longrightarrow> etype (store g t) \<noteq> ''monster''"
  shows "health (components (store g' t)) =
           Some (h\<lparr>current := max 0 (current h - finalDamage dmg (checkBlock g (store g t) (blockRoll rnd)))\<rparr>)"
proof -
  define blocked where "blocked = checkBlock g (store g t) (blockRoll rnd)"
  define g2 where "g2 = (if blocked \<and> skillsSystem g
                then g\<lparr>store := (store g)(t := snd (gainSkillExperience (store g t) ''block'' 5))\<rparr>
                else g)"
  define g3 where "g3 = g2\<lparr>store := (store g2)(t := applyDamage (store g2 t) (finalDamage dmg blocked))\<rparr>"
  define g4 where "g4 = createSwingAnimation g3 a t (swingId rnd)"
  obtain g5 where g5: "(if isDead (store g4 t) then handleDeath g4 t (statPicks rnd) else Inr g4) = Inr g5"
    and g': "g' = gainWeaponSkillExperience g5 a"
    using assms(1) unfolding attackTarget_hit_def Let_def blocked_def[symmetric] g2_def[symmetric]
      g3_def[symmetric] g4_def[symmetric]
    by (auto split: sum.splits)
  have h2: "health (components (store g2 t)) = Some h"
    using assms(3) by (simp add: g2_def)
  have m2: "nextRef g2 = nextRef g" "player g2 = player g" "etype (store g2 t) = etype (store g t)"
    by (simp_all add: g2_def)
  have h3: "health (components (store g3 t)) =
              Some (h\<lparr>current := max 0 (current h - finalDamage dmg blocked)\<rparr>)"
    using applyDamage_health[OF h2] by (simp add: g3_def)
  have m3: "nextRef g3 = nextRef g" "player g3 = player g" "etype (store g3 t) = etype (store g t)"
    using m2 by (simp_all add: g3_def)
  have s4: "store g4 t = store g3 t"
    using assms(2) m3 by (simp add: g4_def createSwingAnimation_frame)
  have m4: "nextRef g4 = nextRef g + 1" "player g4 = player g"
    using m3 by (simp_all add: g4_def createSwingAnimation_frame)
  have c5: "components (store g5 t) = components (store g4 t)"
  proof (cases "isDead (store g4 t)")
    case True
    then have hd: "handleDeath g4 t (statPicks rnd) = Inr g5" using g5 by simp
    show ?thesis
      using handleDeath_frame(6)[OF hd, of t] assms(2,4) m4 s4 m3 by simp
  next
    case False
    then show ?thesis using g5 by simp
  qed
  show ?thesis
    unfolding g' blocked_def[symmetric]
    by (simp add: gainWeaponSkillExperience_frame c5 s4 h3)
qed


lemma attackTarget_miss_store:
  assumes "x < nextRef g"
  shows "\<exists>g'. attackTarget_miss g a t rnd = Inr (False, g') \<and>
     store g' x = (if x = t \<and> dodgeRoll rnd * 100 < calculateDodge g (store g t) \<and> skillsSystem g
                   then snd (gainSkillExperience (store g t) ''dodge'' 3) else store g x)"
proof -
  define g1 where "g1 = createSwingAnimation g a t (swingId rnd)"
  have s1: "store g1 y = store g y" if "y < nextRef g" for y
    using that by (simp add: g1_def createSwingAnimation_frame)
  have f1: "skillsSystem g1 = skillsSystem g" by (simp add: g1_def createSwingAnimation_frame)
  show ?thesis
  proof (cases "x = t")
    case True
    have d1: "calculateDodge g1 (store g t) = calculateDodge g (store g t)"
      by (rule calculateDodge_cong) (simp_all add: f1)
    show ?thesis
      unfolding attackTarget_miss_def Let_def g1_def[symmetric]
      using True assms s1[of t] by (simp add: f1 d1)
  next
    case False
    then show ?thesis
      unfolding attackTarget_miss_def Let_def g1_def[symmetric]
      using assms s1[of x] by simp
  qed
qed

section \<open>Attack cooldown\<close>




section \<open>Damage of a hit\<close>

text \<open>
  C3 (amended). For an \<open>attackTarget\<close> call that returns true (a hit) on a target with a
  health component: the computed damage is \<open>max(1, baseDamage - defense)\<close>, at least 1; the
  target's health drops by \<open>finalDamage\<close>, clamped at 0, where \<open>finalDamage\<close> is that damage
  when the hit is not blocked and its half, rounded down, when the defender blocks; the
  blocked value is at least 0 (and is 0 when the damage is below 2).
\<close>

theorem hit_damage:
  assumes "attackTarget g a t now rnd = Inr (True, g')"
    and "t < nextRef g"
    and "health (components (store g t)) = Some h"
    and "player g = Some t \<longrightarrow> etype (store g t) \<noteq> ''monster''"
  shows "calculateDamage g (store g a) (store g t) =
           max 1 (damage (equipment_calculateDamage g (store g a)) - calculateDefense g (store g t)) \<and>
         1 \<le> calculateDamage g (store g a) (store g t) \<and>
         health (components (store g' t)) =
           Some (h\<lparr>current := max 0 (current h -
              finalDamage (calculateDamage g (store g a) (store g t))
                (checkBlock g (store g t) (blockRoll rnd)))\<rparr>) \<and>
         finalDamage (calculateDamage g (store g a) (store g t)) False =
           calculateDamage g (store g a) (store g t) \<and>
         finalDamage (calculateDamage g (store g a) (store g t)) True =
           of_int \<lfloor>calculateDamage g (store g a) (store g t) / 2\<rfloor> \<and>
         0 \<le> finalDamage (calculateDamage g (store g a) (store g t)) True"
proof -
  let ?dmg = "calculateDamage g (store g a) (store g t)"
  let ?g1 = "setLastAttack g a now"
  have d1: "?dmg = max 1 (damage (equipment_calculateDamage g (store g a)) - calculateDefense g (store g t))"
    by (simp add: calculateDamage_def Let_def)
  have d2: "1 \<le> ?dmg" by (simp add: calculateDamage_def Let_def)
  from assms(1) have ca: "canAttack (store g a) (store g t)"
    and hit: "attackTarget_hit ?g1 a t ?dmg rnd = Inr (True, g')"
    by (auto elim!: attackTarget_cases dest: attackTarget_miss_result)
  have ne: "a \<noteq> t" using canAttack_distinct[OF ca] .
  have cb: "checkBlock ?g1 (store ?g1 t) (blockRoll rnd) = checkBlock g (store g t) (blockRoll rnd)"
    using ne by (simp add: checkBlock_cong[of "store g t" "store g t" ?g1 g])
  have "health (components (store g' t)) =
           Some (h\<lparr>current := max 0 (current h - finalDamage ?dmg (checkBlock ?g1 (store ?g1 t) (blockRoll rnd)))\<rparr>)"
    by (rule attackTarget_hit_health[OF hit]) (use assms(2,3,4) in simp_all)
  then have d3: "health (components (store g' t)) =
           Some (h\<lparr>current := max 0 (current h - finalDamage ?dmg (checkBlock g (store g t) (blockRoll rnd)))\<rparr>)"
    by (simp only: cb)
  have d4: "finalDamage ?dmg False = ?dmg" by (simp add: finalDamage_def)
  have d5: "finalDamage ?dmg True = of_int \<lfloor>?dmg / 2\<rfloor>" by (simp add: finalDamage_def)
  have d6: "0 \<le> finalDamage ?dmg True" using d2 by (simp add: finalDamage_def)
  show ?thesis using d1 d2 d3 d4 d5 d6 by blast
qed

theorem hit_damage_witness:
  "succeeded (attackTarget duelGame 0 1 7000 sampleRolls) \<and>
   calculateDamage duelGame samplePlayer sampleGoblin = 5 \<and>
   \<not> checkBlock duelGame sampleGoblin 0 \<and>
   health (components (store (stateAfter (attackTarget duelGame 0 1 7000 sampleRolls)) 1)) =
     Some \<lparr>current = 5, hmax = 10\<rparr>"
proof -
  have ex: "\<exists>g'. attackTarget duelGame 0 1 7000 sampleRolls = Inr (True, g')"
    by (simp add: sample_defs combat_defs Let_def levelUpLoop.simps)
  then obtain g' where g': "attackTarget duelGame 0 1 7000 sampleRolls = Inr (True, g')" ..
  have s0: "store duelGame 0 = samplePlayer" and s1: "store duelGame 1 = sampleGoblin"
    by (simp_all add: duelGame_def)
  have dm: "calculateDamage duelGame samplePlayer sampleGoblin = 5"
    by (simp add: sample_defs combat_defs Let_def)
  have nb: "\<not> checkBlock duelGame sampleGoblin 0"
    by (simp add: sample_defs combat_defs Let_def)
  have "health (components (store g' 1)) = Some \<lparr>current = 5, hmax = 10\<rparr>"
    using hit_damage[OF g', of "\<lparr>current = 10, hmax = 10\<rparr>"] dm nb
    by (simp add: s0 s1 finalDamage_def) (simp add: sample_defs)
  then show ?thesis using g' dm nb by (simp add: succeeded_def stateAfter_def)
qed

text \<open>
  C3 as stated (a hit never deals less than 1, also when the defender blocks) fails: the
  goblin's hit on the shield-bearing player has damage 1, the block halves it to 0, and the
  player's health is 50 of 50 before and after the successful hit.
\<close>

theorem blocked_hit_zero_damage:
  "succeeded (attackTarget duelGame 1 0 7000 sampleRolls) \<and>
   checkBlock duelGame samplePlayer (blockRoll sampleRolls) \<and>
   calculateDamage duelGame sampleGoblin samplePlayer = 1 \<and>
   finalDamage (calculateDamage duelGame sampleGoblin samplePlayer) True = 0 \<and>
   health (components (store duelGame 0)) = Some \<lparr>current = 50, hmax = 50\<rparr> \<and>
   health (components (store (stateAfter (attackTarget duelGame 1 0 7000 sampleRolls)) 0)) =
     Some \<lparr>current = 50, hmax = 50\<rparr>"
  by (simp add: sample_defs combat_defs Let_def levelUpLoop.simps)

section \<open>Dodge experience on a miss\<close>

text \<open>
  C4 (amended). On every resolved miss of an accepted \<open>attackTarget\<close> call, the defender is
  given 3 dodge experience (\<open>gainSkillExperience(target, 'dodge', 3)\<close>) exactly when a second
  draw, independent of the hit roll, is below the defender's dodge chance and the skills
  system is present; otherwise the defender is unchanged. What caused the miss plays no part.
\<close>

theorem dodge_experience_on_miss:
  assumes "canAttack (store g a) (store g t)"
    and "\<not> now - (case lastAttack (components (store g a)) of Some tm \<Rightarrow> tm | None \<Rightarrow> 0)
           < 6400 / swingSpeed (equipment_calculateDamage g (store g a))"
    and "\<not> rollToHit g (store g a) (store g t) (hitRoll rnd)"
    and "t < nextRef g"
  shows "\<exists>g'. attackTarget g a t now rnd = Inr (False, g') \<and>
           store g' t =
             (if dodgeRoll rnd * 100 < calculateDodge g (store g t) \<and> skillsSystem g
              then snd (gainSkillExperience (store g t) ''dodge'' 3)
              else store g t)"
proof -
  let ?g1 = "setLastAttack g a now"
  have ne: "a \<noteq> t" using canAttack_distinct[OF assms(1)] .
  have at: "attackTarget g a t now rnd = attackTarget_miss ?g1 a t rnd"
    using attackTarget_accepted[OF assms(1,2), of rnd] assms(3) by simp
  have st: "store ?g1 t = store g t" using ne by simp
  have dg: "calculateDodge ?g1 (store g t) = calculateDodge g (store g t)"
    by (rule calculateDodge_cong) simp_all
  from attackTarget_miss_store[of t ?g1 a t rnd] assms(4)
  obtain g' where "attackTarget_miss ?g1 a t rnd = Inr (False, g')"
    and "store g' t = (if dodgeRoll rnd * 100 < calculateDodge ?g1 (store ?g1 t) \<and> skillsSystem ?g1
                   then snd (gainSkillExperience (store ?g1 t) ''dodge'' 3) else store ?g1 t)"
    by auto
  then show ?thesis using at st dg by simp
qed

theorem dodge_experience_on_miss_witness:
  "canAttack (store nimbleGame 0) (store nimbleGame 1) \<and>
   \<not> rollToHit nimbleGame (store nimbleGame 0) (store nimbleGame 1) (hitRoll missRolls) \<and>
   calculateDodge nimbleGame (store nimbleGame 1) = 20 \<and>
   \<not> succeeded (attackTarget nimbleGame 0 1 7000 missRolls) \<and>
   store (stateAfter (attackTarget nimbleGame 0 1 7000 missRolls)) 1 =
     snd (gainSkillExperience (store nimbleGame 1) ''dodge'' 3) \<and>
   skillExperience (store nimbleGame 1) ''dodge'' = Some 0 \<and>
   skillExperience (snd (gainSkillExperience (store nimbleGame 1) ''dodge'' 3)) ''dodge'' = Some 3"
proof -
  have ca: "canAttack (store nimbleGame 0) (store nimbleGame 1)"
    by (simp add: sample_defs combat_defs)
  have gate: "\<not> 7000 - (case lastAttack (components (store nimbleGame 0)) of Some tm \<Rightarrow> tm | None \<Rightarrow> 0)
           < 6400 / swingSpeed (equipment_calculateDamage nimbleGame (store nimbleGame 0))"
    by (simp add: sample_defs combat_defs Let_def)
  have miss: "\<not> rollToHit nimbleGame (store nimbleGame 0) (store nimbleGame 1) (hitRoll missRolls)"
    by (simp add: sample_defs combat_defs Let_def)
  have fresh: "1 < nextRef nimbleGame" by (simp add: sample_defs)
  have dg: "calculateDodge nimbleGame (store nimbleGame 1) = 20"
    by (simp add: sample_defs combat_defs Let_def)
  have sk: "skillsSystem nimbleGame" by (simp add: sample_defs)
  have dr: "dodgeRoll missRolls = 0" by (simp add: missRolls_def)
  from dodge_experience_on_miss[OF ca gate miss fresh]
  obtain g' where g': "attackTarget nimbleGame 0 1 7000 missRolls = Inr (False, g')"
    and st: "store g' 1 = snd (gainSkillExperience (store nimbleGame 1) ''dodge'' 3)"
    using dg sk dr by auto
  have x0: "skillExperience (store nimbleGame 1) ''dodge'' = Some 0"
    by (simp add: sample_defs skillExperience_def)
  have x3: "skillExperience (snd (gainSkillExperience (store nimbleGame 1) ''dodge'' 3)) ''dodge'' = Some 3"
    by (simp add: sample_defs combat_defs skillExperience_def Let_def levelUpLoop.simps)
  show ?thesis using ca miss dg g' st x0 x3 by (simp add: succeeded_def stateAfter_def)
qed

text \<open>
  C4 as stated fails: with a hit roll of 99 the attack misses whatever the defender's dodge
  chance is (the final hit chance is at most 95, and the same roll misses the goblin that
  has no dodge chance at all), yet the defender's dodge experience goes from 0 to 3.
\<close>

theorem dodge_experience_without_dodge_cause:
  "\<not> succeeded (attackTarget nimbleGame 0 1 7000 missRolls) \<and>
   95 \<le> hitRoll missRolls * 100 \<and>
   \<not> rollToHit duelGame samplePlayer sampleGoblin (hitRoll missRolls) \<and>
   calculateDodge duelGame sampleGoblin = 0 \<and>
   skillExperience (store nimbleGame 1) ''dodge'' = Some 0 \<and>
   skillExperience (store (stateAfter (attackTarget nimbleGame 0 1 7000 missRolls)) 1) ''dodge'' = Some 3"
  by (simp add: sample_defs combat_defs Let_def levelUpLoop.simps)

section \<open>Looting a corpse\<close>

lemma corpse_id_neq: "''corpse_'' @ i \<noteq> i"
proof
  assume "''corpse_'' @ i = i"
  then have "length (''corpse_'' @ i) = length i" by simp
  then show False by simp
qed

lemma lootCorpse_again:
  "lootCorpse (snd (lootCorpse g c p rnd)) c p rnd' = (False, snd (lootCorpse g c p rnd))"
proof (cases "corpse (components (store g c))")
  case None
  then show ?thesis by (simp add: lootCorpse_def)
next
  case (Some cc)
  show ?thesis
  proof (cases "looted cc")
    case True
    then show ?thesis using Some by (simp add: lootCorpse_def)
  next
    case nl: False
    show ?thesis
    proof (cases "loot (components (store g c))")
      case None
      then show ?thesis using Some nl by (simp add: lootCorpse_def)
    next
      case lt: (Some lt)
      define gf where "gf = (case lgold lt of
                            None \<Rightarrow> (g, False)
                          | Some (gmin, gmax) \<Rightarrow>
                              let goldAmount = of_int \<lfloor>rnd * (gmax - gmin + 1)\<rfloor> + gmin
                              in if goldAmount > 0
                                 then let pl = store g p;
                                          amount = (case gold (components pl) of
                                                      None \<Rightarrow> 0 | Some am \<Rightarrow> am)
                                      in (g\<lparr>store := (store g)(p :=
                                             pl\<lparr>components := (components pl)\<lparr>gold :=
                                                Some (amount + goldAmount)\<rparr>\<rparr>)\<rparr>, True)
                                 else (g, False))"
      define g1 where "g1 = fst gf"
      define fl where "fl = snd gf"
      define g2 where "g2 = g1\<lparr>store := (store g1)(c :=
                              (store g1 c)\<lparr>components := (components (store g1 c))\<lparr>corpse :=
                                 Some (cc\<lparr>looted := True\<rparr>)\<rparr>\<rparr>)\<rparr>"
      define g3 where "g3 = (if fl then snd (removeEntity g2 (eid (store g2 c))) else g2)"
      have res: "lootCorpse g c p rnd = (fl, g3)"
        using Some nl lt unfolding lootCorpse_def g3_def g2_def g1_def fl_def gf_def
        by (simp add: Let_def split_beta)
      have "corpse (components (store g2 c)) = Some (cc\<lparr>looted := True\<rparr>)"
        by (simp add: g2_def)
      then have "corpse (components (store g3 c)) = Some (cc\<lparr>looted := True\<rparr>)"
        by (simp add: g3_def removeEntity_frame)
      then have "lootCorpse g3 c p rnd' = (False, g3)"
        by (simp add: lootCorpse_def)
      then show ?thesis using res by simp
    qed
  qed
qed

lemma gold_roll_range:
  assumes "0 \<le> (rnd :: real)" "rnd < 1" "a \<le> b"
  shows "of_int a \<le> of_int \<lfloor>rnd * (of_int b - of_int a + 1)\<rfloor> + (of_int a :: real) \<and>
         of_int \<lfloor>rnd * (of_int b - of_int a + 1)\<rfloor> + (of_int a :: real) \<le> of_int b"
proof -
  let ?n = "of_int (b - a + 1) :: real"
  have npos: "0 < ?n" using assms(3) by simp
  have n: "(of_int b - of_int a + 1 :: real) = ?n" by simp
  have lo: "0 \<le> rnd * ?n" using assms(1) npos by simp
  have hi: "rnd * ?n < ?n" using assms(2) npos by simp
  have f0: "0 \<le> \<lfloor>rnd * ?n\<rfloor>" using lo by simp
  have "\<lfloor>rnd * ?n\<rfloor> < b - a + 1" by (subst floor_less_iff) (rule hi)
  then have f1: "\<lfloor>rnd * ?n\<rfloor> \<le> b - a" by simp
  have "of_int a \<le> of_int \<lfloor>rnd * ?n\<rfloor> + (of_int a :: real)" using f0 by simp
  moreover have "of_int \<lfloor>rnd * ?n\<rfloor> + (of_int a :: real) \<le> of_int b"
  proof -
    have "of_int \<lfloor>rnd * ?n\<rfloor> \<le> (of_int (b - a) :: real)" using f1 by (simp only: of_int_le_iff)
    then show ?thesis by simp
  qed
  ultimately show ?thesis unfolding n by simp
qed

lemma corpseGame_corpse:
  "corpse (components (store corpseGame 2)) = Some \<lparr>cmonsterType = ''goblin'', looted = False\<rparr>"
  "loot (components (store corpseGame 2)) = Some \<lparr>lgold = Some (1, 5), litems = []\<rparr>"
  "eid (store corpseGame 2) = ''corpse_goblin_1''"
  "map_of (entities corpseGame) ''corpse_goblin_1'' = Some 2"
  "gold (components (store corpseGame 0)) = None"
  by (simp_all add: loot_defs sample_defs combat_defs Let_def)

text \<open>
  C8 (amended). For a corpse entity: \<open>lootCorpse\<close> on an already looted corpse returns false
  and changes nothing; whatever a first call did, a second call returns false and changes
  nothing, so gold is never credited twice. On an unlooted corpse without a loot component
  it returns false and changes nothing. On an unlooted corpse with a loot component it marks
  the corpse looted, and when the loot has a gold range and the rolled amount
  \<open>floor(rnd * (max - min + 1)) + min\<close> is positive it credits that amount to the looter,
  returns true and removes the registered corpse from the World (deactivated and
  unregistered); when there is no gold range or the amount is not positive it returns false,
  credits nothing and leaves the corpse in the World. For integer bounds \<open>min \<le> max\<close> and a
  draw in [0, 1) the rolled amount lies in [min, max].
\<close>

theorem lootCorpse_outcomes:
  assumes "corpse (components (store g c)) = Some cc"
  shows "(looted cc \<longrightarrow> lootCorpse g c p rnd = (False, g)) \<and>
         (\<not> looted cc \<and> loot (components (store g c)) = None \<longrightarrow> lootCorpse g c p rnd = (False, g)) \<and>
         (\<not> looted cc \<and> loot (components (store g c)) = Some lt \<and> lgold lt = Some (gmin, gmax) \<and>
          0 < of_int \<lfloor>rnd * (gmax - gmin + 1)\<rfloor> + gmin \<and> c \<noteq> p \<and>
          map_of (entities g) (eid (store g c)) = Some c \<longrightarrow>
            fst (lootCorpse g c p rnd) \<and>
            gold (components (store (snd (lootCorpse g c p rnd)) p)) =
              Some ((case gold (components (store g p)) of None \<Rightarrow> 0 | Some am \<Rightarrow> am) +
                    (of_int \<lfloor>rnd * (gmax - gmin + 1)\<rfloor> + gmin)) \<and>
            corpse (components (store (snd (lootCorpse g c p rnd)) c)) = Some (cc\<lparr>looted := True\<rparr>) \<and>
            \<not> active (store (snd (lootCorpse g c p rnd)) c) \<and>
            map_of (entities (snd (lootCorpse g c p rnd))) (eid (store g c)) = None) \<and>
         (\<not> looted cc \<and> loot (components (store g c)) = Some lt \<and>
          (lgold lt = None \<or>
           lgold lt = Some (gmin, gmax) \<and> of_int \<lfloor>rnd * (gmax - gmin + 1)\<rfloor> + gmin \<le> 0) \<longrightarrow>
            lootCorpse g c p rnd =
              (False, g\<lparr>store := (store g)(c :=
                 (store g c)\<lparr>components := (components (store g c))\<lparr>corpse :=
                    Some (cc\<lparr>looted := True\<rparr>)\<rparr>\<rparr>)\<rparr>)) \<and>
         lootCorpse (snd (lootCorpse g c p rnd)) c p rnd' = (False, snd (lootCorpse g c p rnd)) \<and>
         (0 \<le> rnd \<and> rnd < 1 \<and> a \<le> b \<longrightarrow>
            of_int a \<le> of_int \<lfloor>rnd * (of_int b - of_int a + 1)\<rfloor> + (of_int a :: real) \<and>
            of_int \<lfloor>rnd * (of_int b - of_int a + 1)\<rfloor> + (of_int a :: real) \<le> of_int b)"
proof -
  have p1: "looted cc \<longrightarrow> lootCorpse g c p rnd = (False, g)"
    using assms by (simp add: lootCorpse_def)
  have p2: "\<not> looted cc \<and> loot (components (store g c)) = None \<longrightarrow> lootCorpse g c p rnd = (False, g)"
    using assms by (simp add: lootCorpse_def)
  have p3: "\<not> looted cc \<and> loot (components (store g c)) = Some lt \<and> lgold lt = Some (gmin, gmax) \<and>
          0 < of_int \<lfloor>rnd * (gmax - gmin + 1)\<rfloor> + gmin \<and> c \<noteq> p \<and>
          map_of (entities g) (eid (store g c)) = Some c \<longrightarrow>
            fst (lootCorpse g c p rnd) \<and>
            gold (components (store (snd (lootCorpse g c p rnd)) p)) =
              Some ((case gold (components (store g p)) of None \<Rightarrow> 0 | Some am \<Rightarrow> am) +
                    (of_int \<lfloor>rnd * (gmax - gmin + 1)\<rfloor> + gmin)) \<and>
            corpse (components (store (snd (lootCorpse g c p rnd)) c)) = Some (cc\<lparr>looted := True\<rparr>) \<and>
            \<not> active (store (snd (lootCorpse g c p rnd)) c) \<and>
            map_of (entities (snd (lootCorpse g c p rnd))) (eid (store g c)) = None"
  proof (intro impI, elim conjE)
    assume nl: "\<not> looted cc" and lt: "loot (components (store g c)) = Some lt"
      and gd: "lgold lt = Some (gmin, gmax)"
      and pos: "0 < of_int \<lfloor>rnd * (gmax - gmin + 1)\<rfloor> + gmin"
      and ne: "c \<noteq> p" and reg: "map_of (entities g) (eid (store g c)) = Some c"
    define amt where "amt = of_int \<lfloor>rnd * (gmax - gmin + 1)\<rfloor> + gmin"
    define old where "old = (case gold (components (store g p)) of None \<Rightarrow> 0 | Some am \<Rightarrow> am)"
    define g1 where "g1 = g\<lparr>store := (store g)(p :=
        (store g p)\<lparr>components := (components (store g p))\<lparr>gold := Some (old + amt)\<rparr>\<rparr>)\<rparr>"
    define g2 where "g2 = g1\<lparr>store := (store g1)(c :=
        (store g1 c)\<lparr>components := (components (store g1 c))\<lparr>corpse :=
           Some (cc\<lparr>looted := True\<rparr>)\<rparr>\<rparr>)\<rparr>"
    have res: "lootCorpse g c p rnd = (True, snd (removeEntity g2 (eid (store g2 c))))"
      using assms nl lt gd pos
      by (simp add: lootCorpse_def Let_def g2_def g1_def old_def amt_def)
    have id2: "eid (store g2 c) = eid (store g c)" using ne by (simp add: g2_def g1_def)
    have reg2: "map_of (entities g2) (eid (store g c)) = Some c"
      using reg by (simp add: g2_def g1_def)
    have gp: "gold (components (store g2 p)) = Some (old + amt)"
      using ne by (simp add: g2_def g1_def)
    have cp: "corpse (components (store g2 c)) = Some (cc\<lparr>looted := True\<rparr>)"
      by (simp add: g2_def)
    have a: "gold (components (store (snd (removeEntity g2 (eid (store g c)))) p)) = Some (old + amt)"
      using gp by (simp add: removeEntity_frame)
    have b: "corpse (components (store (snd (removeEntity g2 (eid (store g c)))) c)) =
               Some (cc\<lparr>looted := True\<rparr>)"
      using cp by (simp add: removeEntity_frame)
    have c: "\<not> active (store (snd (removeEntity g2 (eid (store g c)))) c)"
      using reg2 by (simp add: removeEntity_def Let_def deactivate_def)
    have d: "map_of (entities (snd (removeEntity g2 (eid (store g c))))) (eid (store g c)) = None"
      using reg2 by (simp add: removeEntity_def Let_def delete_conv)
    show "fst (lootCorpse g c p rnd) \<and>
            gold (components (store (snd (lootCorpse g c p rnd)) p)) =
              Some ((case gold (components (store g p)) of None \<Rightarrow> 0 | Some am \<Rightarrow> am) +
                    (of_int \<lfloor>rnd * (gmax - gmin + 1)\<rfloor> + gmin)) \<and>
            corpse (components (store (snd (lootCorpse g c p rnd)) c)) = Some (cc\<lparr>looted := True\<rparr>) \<and>
            \<not> active (store (snd (lootCorpse g c p rnd)) c) \<and>
            map_of (entities (snd (lootCorpse g c p rnd))) (eid (store g c)) = None"
      unfolding res id2 using a b c d by (simp add: old_def amt_def)
  qed
  have p4: "\<not> looted cc \<and> loot (components (store g c)) = Some lt \<and>
          (lgold lt = None \<or>
           lgold lt = Some (gmin, gmax) \<and> of_int \<lfloor>rnd * (gmax - gmin + 1)\<rfloor> + gmin \<le> 0) \<longrightarrow>
            lootCorpse g c p rnd =
              (False, g\<lparr>store := (store g)(c :=
                 (store g c)\<lparr>components := (components (store g c))\<lparr>corpse :=
                    Some (cc\<lparr>looted := True\<rparr>)\<rparr>\<rparr>)\<rparr>)"
  proof (intro impI, elim conjE)
    assume nl: "\<not> looted cc" and lt: "loot (components (store g c)) = Some lt"
      and gd: "lgold lt = None \<or>
           lgold lt = Some (gmin, gmax) \<and> of_int \<lfloor>rnd * (gmax - gmin + 1)\<rfloor> + gmin \<le> 0"
    from gd show "lootCorpse g c p rnd =
              (False, g\<lparr>store := (store g)(c :=
                 (store g c)\<lparr>components := (components (store g c))\<lparr>corpse :=
                    Some (cc\<lparr>looted := True\<rparr>)\<rparr>\<rparr>)\<rparr>)"
    proof
      assume "lgold lt = None"
      then show ?thesis using assms nl lt by (simp add: lootCorpse_def Let_def)
    next
      assume "lgold lt = Some (gmin, gmax) \<and> of_int \<lfloor>rnd * (gmax - gmin + 1)\<rfloor> + gmin \<le> 0"
      then show ?thesis using assms nl lt by (simp add: lootCorpse_def Let_def)
    qed
  qed
  have p5: "lootCorpse (snd (lootCorpse g c p rnd)) c p rnd' = (False, snd (lootCorpse g c p rnd))"
    by (rule lootCorpse_again)
  have p6: "0 \<le> rnd \<and> rnd < 1 \<and> a \<le> b \<longrightarrow>
            of_int a \<le> of_int \<lfloor>rnd * (of_int b - of_int a + 1)\<rfloor> + (of_int a :: real) \<and>
            of_int \<lfloor>rnd * (of_int b - of_int a + 1)\<rfloor> + (of_int a :: real) \<le> of_int b"
    using gold_roll_range[of rnd a b] by blast
  show ?thesis
    by (intro conjI p1 p2 p3 p4 p5 p6)
qed

theorem lootCorpse_outcomes_witness:
  "fst (lootCorpse corpseGame 2 0 (1 / 2)) \<and>
   gold (components (store corpseGame 0)) = None \<and>
   gold (components (store (snd (lootCorpse corpseGame 2 0 (1 / 2))) 0)) = Some 3 \<and>
   corpse (components (store (snd (lootCorpse corpseGame 2 0 (1 / 2))) 2)) =
     Some \<lparr>cmonsterType = ''goblin'', looted = True\<rparr> \<and>
   \<not> active (store (snd (lootCorpse corpseGame 2 0 (1 / 2))) 2) \<and>
   map_of (entities (snd (lootCorpse corpseGame 2 0 (1 / 2)))) ''corpse_goblin_1'' = None \<and>
   lootCorpse (snd (lootCorpse corpseGame 2 0 (1 / 2))) 2 0 (9 / 10) =
     (False, snd (lootCorpse corpseGame 2 0 (1 / 2))) \<and>
   (1::real) \<le> of_int \<lfloor>(1 / 2) * (5 - 1 + 1 :: real)\<rfloor> + 1 \<and>
   of_int \<lfloor>(1 / 2) * (5 - 1 + 1 :: real)\<rfloor> + 1 \<le> (5::real)"
  using lootCorpse_outcomes[OF corpseGame_corpse(1), of 0 "1 / 2"
      "\<lparr>lgold = Some (1, 5), litems = []\<rparr>" 1 5 "9 / 10" 1 5]
    corpseGame_corpse
  by simp

text \<open>
  C8 as stated fails for an unlooted corpse whose rolled gold amount is 0 (gold range 0 to
  0): \<open>lootCorpse\<close> returns false, marks the corpse looted and leaves it active and registered
  in the World.
\<close>

theorem lootCorpse_no_gold_keeps_corpse:
  "corpse (components (store zeroGoldGame 2)) = Some \<lparr>cmonsterType = ''goblin'', looted = False\<rparr> \<and>
   loot (components (store zeroGoldGame 2)) = Some \<lparr>lgold = Some (0, 0), litems = []\<rparr> \<and>
   map_of (entities zeroGoldGame) ''corpse_goblin_1'' = Some 2 \<and>
   \<not> fst (lootCorpse zeroGoldGame 2 0 (1 / 2)) \<and>
   corpse (components (store (snd (lootCorpse zeroGoldGame 2 0 (1 / 2))) 2)) =
     Some \<lparr>cmonsterType = ''goblin'', looted = True\<rparr> \<and>
   active (store (snd (lootCorpse zeroGoldGame 2 0 (1 / 2))) 2) \<and>
   map_of (entities (snd (lootCorpse zeroGoldGame 2 0 (1 / 2)))) ''corpse_goblin_1'' = Some 2 \<and>
   gold (components (store (snd (lootCorpse zeroGoldGame 2 0 (1 / 2))) 0)) = None"
  by (simp add: loot_defs sample_defs combat_defs Let_def)

section \<open>Death handling\<close>

lemma giveExperience_award:
  assumes "characterProgress g"
    and "level_comp (components (store g m)) = Some lv"
    and "level_comp (components (store g p)) = Some plc"
  shows "\<exists>g' plc'. giveExperience g p m picks = Inr g' \<and>
           level_comp (components (store g' p)) = Some plc' \<and>
           lexperience plc' = lexperience plc + of_int (lvalue lv) * 10 \<and>
           (\<forall>x. x \<noteq> p \<longrightarrow> store g' x = store g x) \<and>
           nextRef g' = nextRef g \<and> entities g' = entities g \<and> player g' = player g \<and>
           eid (store g' p) = eid (store g p)"
proof -
  from addExperience_experience[OF assms(3), of "of_int (lvalue lv) * 10" picks]
  obtain e' lc' where ae: "addExperience (store g p) (of_int (lvalue lv) * 10) picks = Inr e'"
    and lc: "level_comp (components e') = Some lc'"
      "lexperience lc' = lexperience plc + of_int (lvalue lv) * 10"
    by blast
  have ge: "giveExperience g p m picks = Inr (g\<lparr>store := (store g)(p := e')\<rparr>)"
    using assms(1,2) ae by (simp add: giveExperience_def Let_def)
  have "eid e' = eid (store g p)" using addExperience_other[OF ae] by simp
  then show ?thesis using ge lc by simp
qed

lemma createCorpse_result:
  "store (createCorpse g m) (nextRef g) =
     (let monster = store g m;
          c0 = newEntity (''corpse_'' @ eid monster) ''corpse'' (xpos monster) (ypos monster);
          c1 = (case loot (components monster) of
                  None \<Rightarrow> c0
                | Some lt \<Rightarrow> c0\<lparr>components := (components c0)\<lparr>loot := Some lt\<rparr>\<rparr>);
          c2 = (case appearance (components monster) of
                  None \<Rightarrow> c1
                | Some ap \<Rightarrow>
                    c1\<lparr>components := (components c1)\<lparr>appearance := Some (''%'', ''#8B4513'')\<rparr>\<rparr>)
      in c2\<lparr>components := (components c2)\<lparr>corpse :=
                  Some \<lparr>cmonsterType = (if monsterType monster = [] then ''monster''
                                         else monsterType monster),
                        looted = False\<rparr>\<rparr>\<rparr>)"
  "entities (createCorpse g m) = AList.update (''corpse_'' @ eid (store g m)) (nextRef g) (entities g)"
  by (auto simp: createCorpse_def addEntity_def Let_def newEntity_def split: option.splits)

lemma createCorpse_corpse:
  "etype (store (createCorpse g m) (nextRef g)) = ''corpse''"
  "eid (store (createCorpse g m) (nextRef g)) = ''corpse_'' @ eid (store g m)"
  "loot (components (store (createCorpse g m) (nextRef g))) = loot (components (store g m))"
  "map_option looted (corpse (components (store (createCorpse g m) (nextRef g)))) = Some False"
  "active (store (createCorpse g m) (nextRef g))"
  by (auto simp: createCorpse_result Let_def newEntity_def emptyComps_def split: option.splits)

text \<open>
  C9 (amended). \<open>handleDeath\<close> on a registered monster, with \<open>characterProgress\<close> injected and
  level components on the monster and on the player: the player's experience grows by the
  monster's level value times 10, a corpse entity carrying the monster's loot, not looted, is
  registered under \<open>corpse_<id>\<close>, and the monster is deactivated and unregistered. A later
  \<open>attackTarget\<close> on the removed monster is rejected by \<open>canAttack\<close>: it returns false and
  changes nothing, so \<open>attackTarget\<close> never runs death handling for it again. \<open>handleDeath\<close>
  itself has no guard against a second invocation.
\<close>

theorem death_handling:
  assumes "etype (store g t) = ''monster''"
    and "player g = Some p" and "p \<noteq> t" and "p < nextRef g" and "t < nextRef g"
    and "characterProgress g"
    and "level_comp (components (store g t)) = Some lv"
    and "level_comp (components (store g p)) = Some plc"
    and "map_of (entities g) (eid (store g t)) = Some t"
  shows "\<exists>g' plc'. handleDeath g t picks = Inr g' \<and>
           level_comp (components (store g' p)) = Some plc' \<and>
           lexperience plc' = lexperience plc + of_int (lvalue lv) * 10 \<and>
           etype (store g' (nextRef g)) = ''corpse'' \<and>
           eid (store g' (nextRef g)) = ''corpse_'' @ eid (store g t) \<and>
           loot (components (store g' (nextRef g))) = loot (components (store g t)) \<and>
           map_option looted (corpse (components (store g' (nextRef g)))) = Some False \<and>
           map_of (entities g') (''corpse_'' @ eid (store g t)) = Some (nextRef g) \<and>
           \<not> active (store g' t) \<and>
           map_of (entities g') (eid (store g t)) = None \<and>
           attackTarget g' a t now rnd = Inr (False, g')"
proof -
  from giveExperience_award[OF assms(6,7,8), of picks]
  obtain g1 plc' where ge: "giveExperience g p t picks = Inr g1"
    and lc: "level_comp (components (store g1 p)) = Some plc'"
      "lexperience plc' = lexperience plc + of_int (lvalue lv) * 10"
    and fr: "\<forall>x. x \<noteq> p \<longrightarrow> store g1 x = store g x"
      "nextRef g1 = nextRef g" "entities g1 = entities g" "player g1 = player g"
    by blast
  have t1: "store g1 t = store g t" using fr(1) assms(3) by simp
  define g2 where "g2 = createCorpse g1 t"
  define g' where "g' = snd (removeEntity g2 (eid (store g2 t)))"
  have hd: "handleDeath g t picks = Inr g'"
    using assms(1,2) ge t1 by (simp add: handleDeath_def Let_def g2_def g'_def)
  let ?cid = "''corpse_'' @ eid (store g t)"
  let ?r = "nextRef g"
  have s2: "store g2 x = store g1 x" if "x < nextRef g" for x
    using that fr(2) by (simp add: g2_def createCorpse_frame)
  have t2: "store g2 t = store g t" using s2[OF assms(5)] t1 by simp
  have c2: "etype (store g2 ?r) = ''corpse''" "eid (store g2 ?r) = ?cid"
    "loot (components (store g2 ?r)) = loot (components (store g t))"
    "map_option looted (corpse (components (store g2 ?r))) = Some False"
    using createCorpse_corpse[of g1 t] fr(2) t1 by (simp_all add: g2_def)
  have e2: "entities g2 = AList.update ?cid ?r (entities g)"
    using createCorpse_result(2)[of g1 t] fr(2,3) t1 by (simp add: g2_def)
  have reg2: "map_of (entities g2) (eid (store g t)) = Some t"
    using assms(9) corpse_id_neq[of "eid (store g t)"] by (simp add: e2 update_conv)
  have g'_eq: "g' = snd (removeEntity g2 (eid (store g t)))" by (simp add: g'_def t2)
  have comp': "components (store g' x) = components (store g2 x)"
    "eid (store g' x) = eid (store g2 x)" "etype (store g' x) = etype (store g2 x)" for x
    by (simp_all add: g'_eq removeEntity_frame)
  have inact: "\<not> active (store g' t)"
    using reg2 by (simp add: g'_eq removeEntity_def Let_def deactivate_def)
  have ent': "map_of (entities g') = (map_of (entities g2))(eid (store g t) := None)"
    using reg2 by (simp add: g'_eq removeEntity_def Let_def delete_conv')
  have r1: "level_comp (components (store g' p)) = Some plc'"
    using lc(1) s2[OF assms(4)] by (simp add: comp')
  have r8: "map_of (entities g') ?cid = Some ?r"
    using corpse_id_neq[of "eid (store g t)"] by (simp add: ent' e2 update_conv)
  have r10: "map_of (entities g') (eid (store g t)) = None" by (simp add: ent')
  have r11: "attackTarget g' a t now rnd = Inr (False, g')"
    by (rule attackTarget_rejected) (use inact in \<open>simp add: canAttack_def\<close>)
  show ?thesis
    using hd r1 lc(2) c2 r8 inact r10 r11 by (simp add: comp')
qed

theorem death_handling_witness:
  "handleDeath deadGame 1 [0] = Inr corpseGame \<and>
   map_option lexperience (level_comp (components (store deadGame 0))) = Some 0 \<and>
   map_option lexperience (level_comp (components (store corpseGame 0))) = Some 10 \<and>
   etype (store corpseGame 2) = ''corpse'' \<and>
   loot (components (store corpseGame 2)) = Some \<lparr>lgold = Some (1, 5), litems = []\<rparr> \<and>
   map_of (entities corpseGame) ''corpse_goblin_1'' = Some 2 \<and>
   \<not> active (store corpseGame 1) \<and>
   map_of (entities corpseGame) ''goblin_1'' = None \<and>
   attackTarget corpseGame 0 1 7000 sampleRolls = Inr (False, corpseGame)"
proof -
  have h: "etype (store deadGame 1) = ''monster''" "player deadGame = Some 0" "(0::nat) \<noteq> 1"
    "0 < nextRef deadGame" "1 < nextRef deadGame" "characterProgress deadGame"
    "level_comp (components (store deadGame 1)) = Some \<lparr>lvalue = 1, lexperience = 0, experienceToNext = 0\<rparr>"
    "level_comp (components (store deadGame 0)) = Some \<lparr>lvalue = 1, lexperience = 0, experienceToNext = 100\<rparr>"
    "map_of (entities deadGame) (eid (store deadGame 1)) = Some 1"
    by (simp_all add: deadGame_def sample_defs)
  from death_handling[OF h, of "[0]" 0 7000 sampleRolls]
  obtain g' plc' where r: "handleDeath deadGame 1 [0] = Inr g'"
    "level_comp (components (store g' 0)) = Some plc'" "lexperience plc' = 10"
    "etype (store g' 2) = ''corpse''"
    "loot (components (store g' 2)) = loot (components (store deadGame 1))"
    "map_of (entities g') (''corpse_'' @ eid (store deadGame 1)) = Some 2"
    "\<not> active (store g' 1)"
    "map_of (entities g') (eid (store deadGame 1)) = None"
    "attackTarget g' 0 1 7000 sampleRolls = Inr (False, g')"
    by (auto simp: deadGame_def duelGame_def)
  have g': "g' = corpseGame" using r(1) by (simp add: corpseGame_def gameAfter_def)
  have e: "eid (store deadGame 1) = ''goblin_1''"
    "loot (components (store deadGame 1)) = Some \<lparr>lgold = Some (1, 5), litems = []\<rparr>"
    "map_option lexperience (level_comp (components (store deadGame 0))) = Some 0"
    by (simp_all add: deadGame_def sample_defs)
  show ?thesis using r e unfolding g' by simp
qed

text \<open>
  The same through \<open>attackTarget\<close>: the player's hit for 5 on a goblin with 5 health kills
  it. The goblin is deactivated and unregistered, its corpse is registered, the player has 10
  experience, and the next attack on the goblin, after the cooldown, is rejected with the
  state unchanged.
\<close>

lemma lethal_hit_example:
  "succeeded (attackTarget weakGame 0 1 7000 sampleRolls) \<and>
   \<not> active (store (stateAfter (attackTarget weakGame 0 1 7000 sampleRolls)) 1) \<and>
   map_of (entities (stateAfter (attackTarget weakGame 0 1 7000 sampleRolls))) ''goblin_1'' = None \<and>
   map_of (entities (stateAfter (attackTarget weakGame 0 1 7000 sampleRolls))) ''corpse_goblin_1'' = Some 3 \<and>
   map_option lexperience (level_comp (components
      (store (stateAfter (attackTarget weakGame 0 1 7000 sampleRolls)) 0))) = Some 10 \<and>
   attackTarget (stateAfter (attackTarget weakGame 0 1 7000 sampleRolls)) 0 1 20000 sampleRolls =
     Inr (False, stateAfter (attackTarget weakGame 0 1 7000 sampleRolls))"
  by (simp add: weakGame_def sample_defs combat_defs Let_def levelUpLoop.simps)

text \<open>
  C9 as stated (a second invocation of death handling on a removed actor is a no-op) fails:
  \<open>handleDeath\<close> called again on the removed goblin awards the player another 10 experience
  (20 in total) and registers a new, unlooted corpse object under the corpse id.
\<close>

theorem handleDeath_twice_awards_twice:
  "\<not> isl (handleDeath deadGame 1 [0]) \<and>
   \<not> active (store (gameAfter (handleDeath deadGame 1 [0])) 1) \<and>
   map_of (entities (gameAfter (handleDeath deadGame 1 [0]))) ''goblin_1'' = None \<and>
   map_option lexperience (level_comp (components (store (gameAfter (handleDeath deadGame 1 [0])) 0)))
     = Some 10 \<and>
   \<not> isl (handleDeath (gameAfter (handleDeath deadGame 1 [0])) 1 [0]) \<and>
   map_option lexperience (level_comp (components
      (store (gameAfter (handleDeath (gameAfter (handleDeath deadGame 1 [0])) 1 [0])) 0))) = Some 20 \<and>
   map_of (entities (gameAfter (handleDeath deadGame 1 [0]))) ''corpse_goblin_1'' = Some 2 \<and>
   map_of (entities (gameAfter (handleDeath (gameAfter (handleDeath deadGame 1 [0])) 1 [0])))
      ''corpse_goblin_1'' = Some 3"
  by (simp add: loot_defs sample_defs combat_defs Let_def)

section \<open>Notice state of a monster\<close>

lemma sqrt_le_iff_square: "0 \<le> r \<Longrightarrow> (sqrt x \<le> r) = (x \<le> r * r)"
  by (metis abs_of_nonneg real_sqrt_abs2 real_sqrt_le_iff)

lemma distanceTo_le:
  "0 \<le> r \<Longrightarrow> (distanceTo a b \<le> r) =
     (of_int ((xpos a - xpos b) * (xpos a - xpos b) + (ypos a - ypos b) * (ypos a - ypos b)) \<le> r * r)"
  by (simp add: distanceTo_def Let_def sqrt_le_iff_square)

lemma moveEntity_components [simp]:
  "components (store (moveEntity g m px py) r) = components (store g r)"
  by (simp add: moveEntity_def setPosition_def)

lemma moveTowardsTarget_components [simp]:
  "components (store (moveTowardsTarget g m t) r) = components (store g r)"
  by (simp add: moveTowardsTarget_def Let_def)

lemma randomMovement_components [simp]:
  "components (store (randomMovement g m rnd) r) = components (store g r)"
  by (simp add: randomMovement_def Let_def)

lemma processMonsterMovement_notice:
  assumes "ai (components (store g m)) = Some aic"
    and "notice (components (store g m)) = Some nc"
    and "visibility (components (store g m)) = Some True"
    and "player g = Some p"
  shows "notice (components (store (processMonsterMovement g m moveRoll dirRoll) m)) =
           Some (updateNotice nc
             (distanceTo (store g m) (store g p) \<le> (if alertRange nc = 0 then 5 else alertRange nc) \<and>
              hasLineOfSight g (store g m) (store g p)))"
  using assms by (simp add: processMonsterMovement_def Let_def)


lemmas notice_defs = noticeGame_def duelGame_def samplePlayer_def sampleGoblin_def noEquipment_def
  newEntity_def emptyComps_def initializeEntity_def

lemma noticeGame_facts:
  "ai (components (store (noticeGame py hn tm) (Suc 0))) = Some \<lparr>aitype = ''aggressive'', airange = 8\<rparr>"
  "notice (components (store (noticeGame py hn tm) (Suc 0))) =
     Some \<lparr>hasNoticed = hn, noticeTimer = tm, noticeDelay = 10, alertRange = 5\<rparr>"
  "visibility (components (store (noticeGame py hn tm) (Suc 0))) = Some True"
  "player (noticeGame py hn tm) = Some 0"
  "xpos (store (noticeGame py hn tm) (Suc 0)) = 1" "ypos (store (noticeGame py hn tm) (Suc 0)) = py"
  "xpos (store (noticeGame py hn tm) 0) = 1" "ypos (store (noticeGame py hn tm) 0) = 1"
  "active (store (noticeGame py hn tm) (Suc 0))"
  by (simp_all add: notice_defs)


lemma out_of_range_7:
  "\<not> distanceTo (store (noticeGame 7 hn tm) (Suc 0)) (store (noticeGame 7 hn tm) 0) \<le> 5"
  by (simp add: distanceTo_le noticeGame_facts)




text \<open>
  C5, evaluated on the code. A Suspicious goblin (timer 3 of 10, not hostile) that is visible,
  at distance 6 from the player (beyond its alert range of 5, inside the field of view of 8),
  keeps its timer at 3 after \<open>processMonsterMovement\<close>: the reset branch only acts on a monster
  whose \<open>hasNoticed\<close> is set. The sibling reset in \<open>updateMonsterVisibility\<close>, for a monster
  leaving the field of view, does bring the timer of a Suspicious monster back to 0.
\<close>

theorem suspicious_timer_kept:
  "notice (components (store (noticeGame 7 False 3) 1)) =
     Some \<lparr>hasNoticed = False, noticeTimer = 3, noticeDelay = 10, alertRange = 5\<rparr> \<and>
   \<not> distanceTo (store (noticeGame 7 False 3) 1) (store (noticeGame 7 False 3) 0) \<le> 5 \<and>
   distanceTo (store (noticeGame 7 False 3) 1) (store (noticeGame 7 False 3) 0) \<le> 8 \<and>
   notice (components (store (processMonsterMovement (noticeGame 7 False 3) 1 (1 / 2) 0) 1)) =
     Some \<lparr>hasNoticed = False, noticeTimer = 3, noticeDelay = 10, alertRange = 5\<rparr> \<and>
   notice (components (store (updateMonsterVisibility1 (noticeGame 10 False 3) 1) 1)) =
     Some \<lparr>hasNoticed = False, noticeTimer = 0, noticeDelay = 10, alertRange = 5\<rparr>"
  using processMonsterMovement_notice[where g = "noticeGame 7 False 3" and m = "Suc 0"
        and moveRoll = "1 / 2" and dirRoll = 0, OF noticeGame_facts(1,2,3,4)]
    out_of_range_7[of False 3]
  by (simp add: noticeGame_facts updateNotice_def distanceTo_le updateMonsterVisibility1_def Let_def)

end
